theory Spec2Isabelle
  imports Main "HOL-Library.Sublist"
begin

section \<open>Python string primitives used by the editor\<close>

text \<open>
  The editor (\<^verbatim>\<open>openhands_aci/editor/editor.py\<close>) works on Python \<^verbatim>\<open>str\<close> values with the
  built-in methods \<^verbatim>\<open>expandtabs\<close>, \<^verbatim>\<open>split\<close>, \<^verbatim>\<open>splitlines\<close>, \<^verbatim>\<open>join\<close>, \<^verbatim>\<open>count\<close>,
  \<^verbatim>\<open>find\<close> and \<^verbatim>\<open>replace\<close>. A Python string is modelled as a \<^typ>\<open>string\<close>, one \<^typ>\<open>char\<close>
  per code point (so the alphabet is U+0000 .. U+00FF). The definitions below follow the
  documented behaviour of the built-ins.
\<close>

abbreviation LF :: char where "LF \<equiv> CHR 0x0A"
abbreviation CR :: char where "CR \<equiv> CHR 0x0D"
abbreviation TAB :: char where "TAB \<equiv> CHR 0x09"
abbreviation SP :: char where "SP \<equiv> CHR 0x20"

text \<open>
  \<^verbatim>\<open>s.expandtabs()\<close> with the default tab size 8: a tab becomes the spaces that reach
  the next multiple of 8 of the current column; the column restarts after a line feed or
  a carriage return.
\<close>

fun expandtabs_from :: "nat \<Rightarrow> string \<Rightarrow> string" where
  "expandtabs_from j [] = []"
| "expandtabs_from j (c # cs) =
     (if c = TAB then replicate (8 - j mod 8) SP @ expandtabs_from (j + (8 - j mod 8)) cs
      else c # expandtabs_from (if c = LF \<or> c = CR then 0 else Suc j) cs)"

definition expandtabs :: "string \<Rightarrow> string" where
  "expandtabs s = expandtabs_from 0 s"

text \<open>\<^verbatim>\<open>s.split('\n')\<close>: the pieces between line feeds; never an empty list.\<close>

fun split_nl :: "string \<Rightarrow> string list" where
  "split_nl [] = [[]]"
| "split_nl (c # cs) =
     (if c = LF then [] # split_nl cs
      else (c # hd (split_nl cs)) # tl (split_nl cs))"

text \<open>\<^verbatim>\<open>'\n'.join(lines)\<close>.\<close>

fun join_nl :: "string list \<Rightarrow> string" where
  "join_nl [] = []"
| "join_nl [l] = l"
| "join_nl (l # m # ls) = l @ LF # join_nl (m # ls)"

text \<open>
  \<^verbatim>\<open>s.splitlines()\<close>: splits at every line boundary (line feed, carriage return, the
  pair carriage return + line feed, vertical tab, form feed, the separators U+001C,
  U+001D, U+001E and next line U+0085), and yields no empty last piece after a final
  boundary. (U+2028 and U+2029 are outside the modelled alphabet.)
\<close>

definition is_linebreak :: "char \<Rightarrow> bool" where
  "is_linebreak c =
     (c = LF \<or> c = CR \<or> c = CHR 0x0B \<or> c = CHR 0x0C \<or> c = CHR 0x1C \<or> c = CHR 0x1D
      \<or> c = CHR 0x1E \<or> c = CHR 0x85)"

fun splitlines :: "string \<Rightarrow> string list" where
  "splitlines [] = []"
| "splitlines (c # cs) =
     (if c = CR then
        (case cs of
           [] \<Rightarrow> [[]]
         | d # ds \<Rightarrow> if d = LF then [] # splitlines ds else [] # splitlines cs)
      else if is_linebreak c then [] # splitlines cs
      else (case splitlines cs of [] \<Rightarrow> [[c]] | l # ls \<Rightarrow> (c # l) # ls))"

text \<open>
  \<^verbatim>\<open>s.count(sub)\<close>: the number of non-overlapping occurrences, scanning from the
  left; the empty string occurs \<open>len(s) + 1\<close> times.
\<close>

fun count_str :: "string \<Rightarrow> string \<Rightarrow> nat" where
  "count_str s [] = length s + 1"
| "count_str [] (a # sub) = 0"
| "count_str (c # cs) (a # sub) =
     (if prefix (a # sub) (c # cs) then 1 + count_str (drop (length sub) cs) (a # sub)
      else count_str cs (a # sub))"

text \<open>\<^verbatim>\<open>s.count(sub, start, end)\<close> counts inside the slice \<^verbatim>\<open>s[start:end]\<close>.\<close>

definition count_range :: "string \<Rightarrow> string \<Rightarrow> nat \<Rightarrow> nat \<Rightarrow> nat" where
  "count_range s sub start end = count_str (take (end - start) (drop start s)) sub"

text \<open>
  \<^verbatim>\<open>s.replace(old, new)\<close>: every non-overlapping occurrence, from the left; an empty
  \<^verbatim>\<open>old\<close> matches before every character and at the end.
\<close>

fun replace_str :: "string \<Rightarrow> string \<Rightarrow> string \<Rightarrow> string" where
  "replace_str s [] new = new @ concat (map (\<lambda>c. c # new) s)"
| "replace_str [] (a # sub) new = []"
| "replace_str (c # cs) (a # sub) new =
     (if prefix (a # sub) (c # cs) then new @ replace_str (drop (length sub) cs) (a # sub) new
      else c # replace_str cs (a # sub) new)"

text \<open>
  \<^verbatim>\<open>s.find(sub, start)\<close>: the lowest index at or after \<^verbatim>\<open>start\<close> where \<^verbatim>\<open>sub\<close> begins;
  Python's \<^verbatim>\<open>-1\<close> is \<^const>\<open>None\<close> here.
\<close>

fun find_str :: "string \<Rightarrow> string \<Rightarrow> nat option" where
  "find_str [] sub = (if sub = [] then Some 0 else None)"
| "find_str (c # cs) sub =
     (if prefix sub (c # cs) then Some 0 else map_option Suc (find_str cs sub))"

definition find_from :: "string \<Rightarrow> string \<Rightarrow> nat \<Rightarrow> nat option" where
  "find_from s sub start =
     (if length s < start then None
      else map_option (\<lambda>i. start + i) (find_str (drop start s) sub))"


section \<open>Errors, results and the state the editor works on\<close>

text \<open>
  The exceptions of \<^verbatim>\<open>exceptions.py\<close> and the Python built-in exceptions the editor can
  run into. A \<^verbatim>\<open>ToolError\<close> carries a formatted message; the model keeps which message
  it is and the values formatted into it.
\<close>

datatype tool_message =
    InvalidLine string int nat
      \<comment> \<open>\<^verbatim>\<open>Invalid {pattern}: {line}. Line numbers must be between 1 and {num_lines}.\<close>\<close>
  | InvalidRangeOrder string "int list"
      \<comment> \<open>\<^verbatim>\<open>Invalid {pattern}: {range}. Start line must be less than or equal to end line.\<close>\<close>
  | NotFound string string
      \<comment> \<open>\<^verbatim>\<open>No replacement was performed, old_str `{old_str}` did not appear verbatim in {path}.\<close>\<close>
  | MultipleOccurrences string "int list"
      \<comment> \<open>\<^verbatim>\<open>No replacement was performed. Multiple occurrences of old_str `{old_str}` in lines {line_numbers}. ...\<close>\<close>
  | NoHistory string
      \<comment> \<open>\<^verbatim>\<open>No edit history found for {path}.\<close>\<close>
  | ReadFailure string
      \<comment> \<open>\<^verbatim>\<open>Ran into {e} while trying to read {path}\<close>\<close>
  | WriteFailure string
      \<comment> \<open>\<^verbatim>\<open>Ran into {e} while trying to write to {path}\<close>\<close>
  | UnrecognizedCommand string

datatype pyval = PStr string | PInt int | PInts "int list"

datatype hint =
    SameStrings | NotAbsolute | AlreadyExists | DoesNotExist | IsDirectory
  | RangeNotAllowedForDirectory | NotTwoIntegers
  | FirstOutOfLines int nat | SecondAboveLines int nat | SecondBelowFirst int int
  | InsertLineOutOfLines nat

datatype error =
    ToolError tool_message
  | EditorToolParameterMissingError string string
      \<comment> \<open>command, parameter\<close>
  | EditorToolParameterInvalidError string pyval hint
      \<comment> \<open>the three positional arguments as the editor passes them: parameter name, value, hint\<close>
  | ValueError string
  | IndexError
  | ReError
      \<comment> \<open>\<^verbatim>\<open>re.error\<close>: the pattern does not compile\<close>

text \<open>
  \<^verbatim>\<open>CLIResult\<close>. The text of \<^verbatim>\<open>output\<close> is rendered by \<^verbatim>\<open>_make_output\<close> and
  \<^verbatim>\<open>maybe_truncate\<close> with constants of modules outside this development, so the model
  keeps only which message it is (and, for \<^verbatim>\<open>view\<close>, the text that is shown).
\<close>

datatype notice =
    Created | LinesDeleted | RangeDeleted | Edited | Inserted | Undone | Shown string | Listed

record cli_result =
  r_output :: notice
  r_path :: string
  r_prev_exist :: bool
  r_old_content :: "string option"
  r_new_content :: "string option"

text \<open>
  The state: the file system as \<^verbatim>\<open>pathlib\<close> shows it (a path holds a text file, a
  directory or nothing; a write can be refused), and the editor's \<^verbatim>\<open>_file_history\<close>, a
  \<^verbatim>\<open>defaultdict(list)\<close>, so every path has a list, initially empty. Paths are
  strings in \<^verbatim>\<open>Path\<close>'s normal form.
\<close>

datatype entry = File string | Dir

record world =
  files :: "string \<Rightarrow> entry option"
  write_denied :: "string \<Rightarrow> bool"
  file_history :: "string \<Rightarrow> string list"

text \<open>
  \<^verbatim>\<open>Path.read_text()\<close> opens the file in text mode, where universal newlines turn
  \<^verbatim>\<open>\r\n\<close> and \<^verbatim>\<open>\r\<close> into \<^verbatim>\<open>\n\<close>.
\<close>

fun universal_newlines :: "string \<Rightarrow> string" where
  "universal_newlines [] = []"
| "universal_newlines (c # cs) =
     (if c = CR then
        (case cs of
           [] \<Rightarrow> [LF]
         | d # ds \<Rightarrow> if d = LF then LF # universal_newlines ds else LF # universal_newlines cs)
      else c # universal_newlines cs)"

definition read_file :: "world \<Rightarrow> string \<Rightarrow> error + string" where
  "read_file w p =
     (case files w p of
        Some (File t) \<Rightarrow> Inr (universal_newlines t)
      | _ \<Rightarrow> Inl (ToolError (ReadFailure p)))"

definition write_file :: "world \<Rightarrow> string \<Rightarrow> string \<Rightarrow> error + world" where
  "write_file w p file_text =
     (if write_denied w p \<or> files w p = Some Dir then Inl (ToolError (WriteFailure p))
      else Inr (w\<lparr>files := (files w)(p \<mapsto> File file_text)\<rparr>))"

text \<open>\<^verbatim>\<open>self._file_history[path].append(content)\<close>.\<close>

definition history_append :: "world \<Rightarrow> string \<Rightarrow> string \<Rightarrow> world" where
  "history_append w p content =
     w\<lparr>file_history := (file_history w)(p := file_history w p @ [content])\<rparr>"

datatype command = View | Create | Str_replace | Insert | Undo_edit | Other string

definition is_absolute :: "string \<Rightarrow> bool" where
  "is_absolute p = (case p of [] \<Rightarrow> False | c # _ \<Rightarrow> c = CHR ''/'')"

definition validate_path :: "world \<Rightarrow> command \<Rightarrow> string \<Rightarrow> error option" where
  "validate_path w cmd p =
     (if \<not> is_absolute p then Some (EditorToolParameterInvalidError ''path'' (PStr p) NotAbsolute)
      else if cmd = Create \<and> files w p \<noteq> None then
        Some (EditorToolParameterInvalidError ''path'' (PStr p) AlreadyExists)
      else if cmd \<noteq> Create \<and> files w p = None then
        Some (EditorToolParameterInvalidError ''path'' (PStr p) DoesNotExist)
      else if cmd \<noteq> View \<and> files w p = Some Dir then
        Some (EditorToolParameterInvalidError ''path'' (PStr p) IsDirectory)
      else None)"


section \<open>The line selectors of \<^verbatim>\<open>str_replace\<close> and their validation\<close>

text \<open>
  The keyword parameters of \<^verbatim>\<open>OHEditor.str_replace\<close>. A list parameter defaults to
  \<^verbatim>\<open>None\<close>; the code tests it by truth value (\<^verbatim>\<open>if line_numbers:\<close>), so \<^verbatim>\<open>None\<close> and
  the empty list both count as not supplied: \<^term>\<open>items p \<noteq> []\<close> is that test.
\<close>

record selectors =
  line_numbers :: "int list option"
  line_range :: "int list option"
  line_all :: bool
  delete_lines :: "int list option"
  delete_range :: "int list option"
  regex :: bool

definition items :: "int list option \<Rightarrow> int list" where
  "items p = (case p of None \<Rightarrow> [] | Some xs \<Rightarrow> xs)"

text \<open>\<^verbatim>\<open>min(xs)\<close> and \<^verbatim>\<open>max(xs)\<close>, called on non-empty lists only.\<close>

definition list_min :: "int list \<Rightarrow> int" where
  "list_min xs = fold min (tl xs) (hd xs)"

definition list_max :: "int list \<Rightarrow> int" where
  "list_max xs = fold max (tl xs) (hd xs)"

definition validate_min_or_max :: "string \<Rightarrow> int \<Rightarrow> int \<Rightarrow> nat \<Rightarrow> error option" where
  "validate_min_or_max pattern min_line max_line num_lines =
     (if min_line \<le> 0 then Some (ToolError (InvalidLine pattern min_line num_lines))
      else if int num_lines < max_line then
        Some (ToolError (InvalidLine pattern max_line num_lines))
      else None)"

text \<open>
  A range parameter is checked like a list of line numbers and then unpacked
  (\<^verbatim>\<open>start, end = line_range\<close>, a \<^verbatim>\<open>ValueError\<close> unless it has two elements) and
  checked for \<^verbatim>\<open>start > end\<close>.
\<close>

definition validate_range :: "string \<Rightarrow> int list \<Rightarrow> nat \<Rightarrow> error option" where
  "validate_range pattern r num_lines =
     (case validate_min_or_max pattern (list_min r) (list_max r) num_lines of
        Some e \<Rightarrow> Some e
      | None \<Rightarrow>
          (case r of
             [start, end] \<Rightarrow>
               if start > end then Some (ToolError (InvalidRangeOrder pattern r)) else None
           | _ \<Rightarrow> Some (ValueError ''unpack'')))"

text \<open>The block \<^verbatim>\<open># Validate line numbers\<close>: four checks, in the order of the source.\<close>

definition validate_selectors :: "selectors \<Rightarrow> nat \<Rightarrow> error option" where
  "validate_selectors sel num_lines =
     (case (if items (line_numbers sel) \<noteq> []
            then validate_min_or_max ''line number'' (list_min (items (line_numbers sel)))
                   (list_max (items (line_numbers sel))) num_lines
            else None) of
        Some e \<Rightarrow> Some e
      | None \<Rightarrow>
     (case (if items (line_range sel) \<noteq> []
            then validate_range ''line range'' (items (line_range sel)) num_lines
            else None) of
        Some e \<Rightarrow> Some e
      | None \<Rightarrow>
     (case (if items (delete_lines sel) \<noteq> []
            then validate_min_or_max ''delete lines'' (list_min (items (delete_lines sel)))
                   (list_max (items (delete_lines sel))) num_lines
            else None) of
        Some e \<Rightarrow> Some e
      | None \<Rightarrow>
     (if items (delete_range sel) \<noteq> []
      then validate_range ''delete range'' (items (delete_range sel)) num_lines
      else None))))"

section \<open>The mutation resolver\<close>

text \<open>
  Python's \<^verbatim>\<open>re.sub(pattern, repl, string, count, flags)\<close> is a parameter of the model:
  \<open>re dotall pattern repl s count\<close>, where \<open>dotall\<close> says whether \<^verbatim>\<open>flags=re.DOTALL\<close> is
  passed and \<open>count = 0\<close> means every match. Its result is \<^const>\<open>None\<close> when the pattern
  or the replacement does not compile, which raises \<^verbatim>\<open>re.error\<close>.
\<close>

type_synonym re_engine = "bool \<Rightarrow> string \<Rightarrow> string \<Rightarrow> string \<Rightarrow> nat \<Rightarrow> string option"

definition re_sub :: "re_engine \<Rightarrow> bool \<Rightarrow> string \<Rightarrow> string \<Rightarrow> string \<Rightarrow> nat \<Rightarrow> error + string" where
  "re_sub re dotall pattern repl s count =
     (case re dotall pattern repl s count of None \<Rightarrow> Inl ReError | Some t \<Rightarrow> Inr t)"

text \<open>The substitution applied to one line under \<^verbatim>\<open>line_numbers\<close> or \<^verbatim>\<open>line_range\<close>.\<close>

definition substitute :: "re_engine \<Rightarrow> bool \<Rightarrow> string \<Rightarrow> string \<Rightarrow> string \<Rightarrow> error + string" where
  "substitute re rx old_str new_str line =
     (if rx then re_sub re True old_str new_str line 0 else Inr (replace_str line old_str new_str))"

text \<open>
  \<^verbatim>\<open>for i in ...: if i < len(file_content_lines): file_content_lines[i] = ...\<close>. The
  index is a Python list index: a negative one counts from the end, and one below
  \<open>-len\<close> raises \<^verbatim>\<open>IndexError\<close>.
\<close>

fun replace_on_lines :: "(string \<Rightarrow> error + string) \<Rightarrow> int list \<Rightarrow> string list \<Rightarrow> error + string list" where
  "replace_on_lines sub [] lines = Inr lines"
| "replace_on_lines sub (i # is) lines =
     (if i < int (length lines) then
        (if i < - int (length lines) then Inl IndexError
         else
           (let k = (if i < 0 then nat (int (length lines) + i) else nat i) in
            case sub (lines ! k) of
              Inl e \<Rightarrow> Inl e
            | Inr l \<Rightarrow> replace_on_lines sub is (lines[k := l])))
      else replace_on_lines sub is lines)"

text \<open>
  The loop that collects the line numbers for the message of several occurrences:
  \<^verbatim>\<open>idx = file_content.find(old_str, start_idx)\<close>, stop at \<^verbatim>\<open>-1\<close>, else append
  \<^verbatim>\<open>file_content.count('\n', 0, idx) + 1\<close> and go on from \<^verbatim>\<open>idx + 1\<close>.
\<close>

function occurrence_lines :: "string \<Rightarrow> string \<Rightarrow> nat \<Rightarrow> int list \<Rightarrow> int list" where
  "occurrence_lines file_content old_str start_idx acc =
     (case find_from file_content old_str start_idx of
        None \<Rightarrow> acc
      | Some idx \<Rightarrow>
          occurrence_lines file_content old_str (idx + 1)
            (acc @ [int (count_range file_content [LF] 0 idx + 1)]))"
  by pat_completeness auto
termination
  by (relation "measure (\<lambda>(file_content, old_str, start_idx, acc). length file_content + 1 - start_idx)")
     (auto simp: find_from_def split: if_splits)

declare occurrence_lines.simps [simp del]

text \<open>The default path: no selector, literal text.\<close>

definition first_occurrence :: "string \<Rightarrow> string \<Rightarrow> string \<Rightarrow> string \<Rightarrow> error + string" where
  "first_occurrence p file_content old_str new_str =
     (let occurrences = count_str file_content old_str in
      if occurrences = 0 then Inl (ToolError (NotFound old_str p))
      else if occurrences > 1 then
        Inl (ToolError (MultipleOccurrences old_str (occurrence_lines file_content old_str 0 [])))
      else Inr (replace_str file_content old_str new_str))"

text \<open>
  The branches from \<^verbatim>\<open>if not line_all:\<close> to the end of the \<^verbatim>\<open>else\<close>, which compute
  \<^verbatim>\<open>new_file_content\<close>.
\<close>

definition resolve :: "re_engine \<Rightarrow> string \<Rightarrow> string \<Rightarrow> string list \<Rightarrow> string \<Rightarrow> string \<Rightarrow> selectors \<Rightarrow> error + string" where
  "resolve re p file_content file_content_lines old_str new_str sel =
     (if \<not> line_all sel then
        (if items (line_numbers sel) \<noteq> [] then
           (case replace_on_lines (substitute re (regex sel) old_str new_str)
                   (map (\<lambda>i. i - 1) (items (line_numbers sel))) file_content_lines of
              Inl e \<Rightarrow> Inl e
            | Inr ls \<Rightarrow> Inr (join_nl ls))
         else if items (line_range sel) \<noteq> [] then
           (case items (line_range sel) of
              [start, end] \<Rightarrow>
                (case replace_on_lines (substitute re (regex sel) old_str new_str)
                        [start - 1 .. end - 1] file_content_lines of
                   Inl e \<Rightarrow> Inl e
                 | Inr ls \<Rightarrow> Inr (join_nl ls))
            | _ \<Rightarrow> Inl (ValueError ''unpack''))
         else if regex sel then re_sub re False old_str new_str file_content 1
         else first_occurrence p file_content old_str new_str)
      else if regex sel then re_sub re True old_str new_str file_content 0
      else Inr (join_nl (map (\<lambda>line. replace_str line old_str new_str) (splitlines file_content))))"


section \<open>The commands\<close>

text \<open>
  A command returns the state it leaves and either the exception it raised or its
  \<^verbatim>\<open>CLIResult\<close>. An exception does not roll anything back, so the state is returned in
  both cases. Linting is optional (\<^verbatim>\<open>enable_linting\<close>, default \<^verbatim>\<open>False\<close>) and done by a
  linter outside this development; the model is of calls that leave it off.
\<close>

type_synonym outcome = "world \<times> (error + cli_result)"

definition edited :: "notice \<Rightarrow> string \<Rightarrow> string \<Rightarrow> string \<Rightarrow> cli_result" where
  "edited n p old_content new_content =
     \<lparr>r_output = n, r_path = p, r_prev_exist = True,
      r_old_content = Some old_content, r_new_content = Some new_content\<rparr>"

text \<open>The lines that are kept by \<^verbatim>\<open>delete_lines\<close> and by \<^verbatim>\<open>delete_range\<close>.\<close>

definition without_lines :: "int list \<Rightarrow> string list \<Rightarrow> string list" where
  "without_lines dl file_content_lines =
     map snd (filter (\<lambda>(i, line). int i \<notin> set (map (\<lambda>d. d - 1) dl))
       (enumerate 0 file_content_lines))"

definition without_range :: "int \<Rightarrow> int \<Rightarrow> string list \<Rightarrow> string list" where
  "without_range start end file_content_lines =
     map snd (filter (\<lambda>(i, line). \<not> (start \<le> int i + 1 \<and> int i + 1 \<le> end))
       (enumerate 0 file_content_lines))"

text \<open>
  The two delete branches: write, record the old content, return.
\<close>

definition delete_and_return :: "world \<Rightarrow> string \<Rightarrow> notice \<Rightarrow> string \<Rightarrow> string \<Rightarrow> outcome" where
  "delete_and_return w p n file_content new_file_content =
     (case write_file w p new_file_content of
        Inl e \<Rightarrow> (w, Inl e)
      | Inr w1 \<Rightarrow>
          (history_append w1 p file_content, Inr (edited n p file_content new_file_content)))"

text \<open>
  \<^verbatim>\<open>OHEditor.str_replace\<close>. After the write and the history entry, the snippet for the
  message is cut with \<^verbatim>\<open>file_content.split(old_str)\<close>, which raises \<^verbatim>\<open>ValueError\<close> on an
  empty \<^verbatim>\<open>old_str\<close>.
\<close>

definition str_replace :: "re_engine \<Rightarrow> world \<Rightarrow> string \<Rightarrow> string \<Rightarrow> string option \<Rightarrow> selectors \<Rightarrow> outcome" where
  "str_replace re w p old_str0 new_str0 sel =
     (case read_file w p of
        Inl e \<Rightarrow> (w, Inl e)
      | Inr raw \<Rightarrow>
          (let file_content = expandtabs raw;
               old_str = expandtabs old_str0;
               new_str = (case new_str0 of None \<Rightarrow> [] | Some n \<Rightarrow> expandtabs n);
               file_content_lines = split_nl file_content;
               num_lines = length file_content_lines
           in
           case validate_selectors sel num_lines of
             Some e \<Rightarrow> (w, Inl e)
           | None \<Rightarrow>
               if items (delete_lines sel) \<noteq> [] then
                 delete_and_return w p LinesDeleted file_content
                   (join_nl (without_lines (items (delete_lines sel)) file_content_lines))
               else if items (delete_range sel) \<noteq> [] then
                 (case items (delete_range sel) of
                    [start, end] \<Rightarrow>
                      delete_and_return w p RangeDeleted file_content
                        (join_nl (without_range start end file_content_lines))
                  | _ \<Rightarrow> (w, Inl (ValueError ''unpack'')))
               else
                 (case resolve re p file_content file_content_lines old_str new_str sel of
                    Inl e \<Rightarrow> (w, Inl e)
                  | Inr new_file_content \<Rightarrow>
                      (case write_file w p new_file_content of
                         Inl e \<Rightarrow> (w, Inl e)
                       | Inr w1 \<Rightarrow>
                           (let w2 = history_append w1 p file_content in
                            if old_str = [] then (w2, Inl (ValueError ''empty separator''))
                            else (w2, Inr (edited Edited p file_content new_file_content)))))))"

text \<open>\<^verbatim>\<open>OHEditor.insert\<close>.\<close>

definition insert_cmd :: "world \<Rightarrow> string \<Rightarrow> int \<Rightarrow> string \<Rightarrow> outcome" where
  "insert_cmd w p insert_line new_str0 =
     (case read_file w p of
        Inl e \<Rightarrow> (w, Inl e)
      | Inr raw \<Rightarrow>
          (let file_text = expandtabs raw;
               new_str = expandtabs new_str0;
               file_text_lines = split_nl file_text;
               num_lines = length file_text_lines
           in
           if insert_line < 0 \<or> insert_line > int num_lines then
             (w, Inl (EditorToolParameterInvalidError ''insert_line'' (PInt insert_line)
                        (InsertLineOutOfLines num_lines)))
           else
             (let new_str_lines = split_nl new_str;
                  new_file_text_lines =
                    take (nat insert_line) file_text_lines @ new_str_lines
                      @ drop (nat insert_line) file_text_lines;
                  new_file_text = join_nl new_file_text_lines
              in
              case write_file w p new_file_text of
                Inl e \<Rightarrow> (w, Inl e)
              | Inr w1 \<Rightarrow>
                  (history_append w1 p file_text, Inr (edited Inserted p file_text new_file_text)))))"

text \<open>
  \<^verbatim>\<open>OHEditor.undo_edit\<close>: the history is tested first, then the file is read, the last
  entry is popped, and the file is written.
\<close>

definition undo_edit :: "world \<Rightarrow> string \<Rightarrow> outcome" where
  "undo_edit w p =
     (if file_history w p = [] then (w, Inl (ToolError (NoHistory p)))
      else
        (case read_file w p of
           Inl e \<Rightarrow> (w, Inl e)
         | Inr raw \<Rightarrow>
             (let current_text = expandtabs raw;
                  old_text = last (file_history w p);
                  w1 = w\<lparr>file_history := (file_history w)(p := butlast (file_history w p))\<rparr>
              in
              case write_file w1 p old_text of
                Inl e \<Rightarrow> (w1, Inl e)
              | Inr w2 \<Rightarrow> (w2, Inr (edited Undone p current_text old_text)))))"

text \<open>
  \<^verbatim>\<open>OHEditor.view\<close>. The listing of a directory is made by a shell command; the model
  keeps that it changes nothing.
\<close>

definition view :: "world \<Rightarrow> string \<Rightarrow> int list option \<Rightarrow> error + cli_result" where
  "view w p view_range =
     (let shown = (\<lambda>t. \<lparr>r_output = Shown t, r_path = p, r_prev_exist = True,
                       r_old_content = None, r_new_content = None\<rparr>) in
      if files w p = Some Dir then
        (if items view_range \<noteq> [] then
           Inl (EditorToolParameterInvalidError ''view_range'' (PInts (items view_range))
                  RangeNotAllowedForDirectory)
         else Inr \<lparr>r_output = Listed, r_path = p, r_prev_exist = True,
                    r_old_content = None, r_new_content = None\<rparr>)
      else
        (case read_file w p of
           Inl e \<Rightarrow> Inl e
         | Inr file_content \<Rightarrow>
             (case items view_range of
                [] \<Rightarrow> Inr (shown file_content)
              | [start_line, end_line] \<Rightarrow>
                  (let file_content_lines = split_nl file_content;
                       num_lines = length file_content_lines
                   in
                   if start_line < 1 \<or> start_line > int num_lines then
                     Inl (EditorToolParameterInvalidError ''view_range''
                            (PInts [start_line, end_line]) (FirstOutOfLines start_line num_lines))
                   else if end_line > int num_lines then
                     Inl (EditorToolParameterInvalidError ''view_range''
                            (PInts [start_line, end_line]) (SecondAboveLines end_line num_lines))
                   else if end_line \<noteq> - 1 \<and> end_line < start_line then
                     Inl (EditorToolParameterInvalidError ''view_range''
                            (PInts [start_line, end_line]) (SecondBelowFirst end_line start_line))
                   else if end_line = - 1 then
                     Inr (shown (join_nl (drop (nat (start_line - 1)) file_content_lines)))
                   else
                     Inr (shown (join_nl (take (nat end_line - nat (start_line - 1))
                                   (drop (nat (start_line - 1)) file_content_lines)))))
              | r \<Rightarrow> Inl (EditorToolParameterInvalidError ''view_range'' (PInts r) NotTwoIntegers))))"

text \<open>
  \<^verbatim>\<open>OHEditor.__call__\<close>: the path is validated, then the command is dispatched.
  \<^verbatim>\<open>create\<close> writes the file and appends \<^verbatim>\<open>file_text\<close> to the history.
\<close>

definition call :: "re_engine \<Rightarrow> world \<Rightarrow> command \<Rightarrow> string \<Rightarrow> string option \<Rightarrow> int list option
    \<Rightarrow> string option \<Rightarrow> string option \<Rightarrow> int option \<Rightarrow> selectors \<Rightarrow> outcome" where
  "call re w cmd p file_text view_range old_str new_str insert_line sel =
     (case validate_path w cmd p of
        Some e \<Rightarrow> (w, Inl e)
      | None \<Rightarrow>
          (case cmd of
             View \<Rightarrow> (w, view w p view_range)
           | Create \<Rightarrow>
               (case file_text of
                  None \<Rightarrow> (w, Inl (EditorToolParameterMissingError ''create'' ''file_text''))
                | Some t \<Rightarrow>
                    (case write_file w p t of
                       Inl e \<Rightarrow> (w, Inl e)
                     | Inr w1 \<Rightarrow>
                         (history_append w1 p t,
                          Inr \<lparr>r_output = Created, r_path = p, r_prev_exist = False,
                               r_old_content = None, r_new_content = Some t\<rparr>)))
           | Str_replace \<Rightarrow>
               (case old_str of
                  None \<Rightarrow> (w, Inl (EditorToolParameterMissingError ''str_replace'' ''old_str''))
                | Some old \<Rightarrow>
                    if new_str = Some old then
                      (w, Inl (EditorToolParameterInvalidError ''new_str'' (PStr old) SameStrings))
                    else str_replace re w p old new_str sel)
           | Insert \<Rightarrow>
               (case insert_line of
                  None \<Rightarrow> (w, Inl (EditorToolParameterMissingError ''insert'' ''insert_line''))
                | Some l \<Rightarrow>
                    (case new_str of
                       None \<Rightarrow> (w, Inl (EditorToolParameterMissingError ''insert'' ''new_str''))
                     | Some new \<Rightarrow> insert_cmd w p l new))
           | Undo_edit \<Rightarrow> undo_edit w p
           | Other name \<Rightarrow> (w, Inl (ToolError (UnrecognizedCommand name)))))"


section \<open>Concrete states and a small regular-expression engine\<close>

text \<open>
  The state in which one text file exists, every write is allowed and the editor has
  just been constructed; and the default values of the keyword parameters.
\<close>

definition single_file :: "string \<Rightarrow> string \<Rightarrow> world" where
  "single_file p t =
     \<lparr>files = [p \<mapsto> File t], write_denied = (\<lambda>_. False), file_history = (\<lambda>_. [])\<rparr>"

definition no_selectors :: selectors where
  "no_selectors =
     \<lparr>line_numbers = None, line_range = None, line_all = False,
      delete_lines = None, delete_range = None, regex = False\<rparr>"

text \<open>The state in which no path holds anything.\<close>

definition no_files :: world where
  "no_files = \<lparr>files = Map.empty, write_denied = (\<lambda>_. False), file_history = (\<lambda>_. [])\<rparr>"

text \<open>
  An instance of the engine, to run the resolver in regex mode: \<^verbatim>\<open>re.sub\<close> for
  non-empty patterns made of ordinary characters and \<^verbatim>\<open>.\<close> only, and replacements
  without a backslash. A dot matches any character but a line feed, and any character
  at all under \<^verbatim>\<open>re.DOTALL\<close>.
\<close>

fun dot_match :: "bool \<Rightarrow> string \<Rightarrow> string \<Rightarrow> bool" where
  "dot_match dotall [] s = True"
| "dot_match dotall (q # qs) [] = False"
| "dot_match dotall (q # qs) (c # cs) =
     ((if q = CHR ''.'' then dotall \<or> c \<noteq> LF else q = c) \<and> dot_match dotall qs cs)"

fun dot_sub :: "bool \<Rightarrow> string \<Rightarrow> string \<Rightarrow> nat option \<Rightarrow> string \<Rightarrow> string" where
  "dot_sub dotall pattern repl left [] = []"
| "dot_sub dotall pattern repl left (c # cs) =
     (if left \<noteq> Some 0 \<and> dot_match dotall pattern (c # cs) then
        repl @ dot_sub dotall pattern repl (map_option (\<lambda>n. n - 1) left)
                 (drop (length pattern - 1) cs)
      else c # dot_sub dotall pattern repl left cs)"

definition dot_engine :: re_engine where
  "dot_engine dotall pattern repl s count =
     Some (dot_sub dotall pattern repl (if count = 0 then None else Some count) s)"


section \<open>Kinds of errors\<close>

text \<open>
  The two errors of the default path: \<^verbatim>\<open>old_str\<close> not found, and \<^verbatim>\<open>old_str\<close> found more
  than once.
\<close>

definition is_match_error :: "error \<Rightarrow> bool" where
  "is_match_error e =
     (case e of
        ToolError (NotFound _ _) \<Rightarrow> True
      | ToolError (MultipleOccurrences _ _) \<Rightarrow> True
      | _ \<Rightarrow> False)"

section \<open>Properties\<close>

lemmas eval_defs =
  str_replace_def read_file_def write_file_def history_append_def single_file_def
  no_selectors_def expandtabs_def validate_selectors_def items_def resolve_def
  first_occurrence_def is_linebreak_def Let_def edited_def re_sub_def dot_engine_def
  substitute_def validate_min_or_max_def validate_range_def list_min_def list_max_def
  without_lines_def without_range_def delete_and_return_def enumerate_eq_zip

subsection \<open>Occurrences of a literal \<^verbatim>\<open>old_str\<close> without a selector\<close>

text \<open>
  Claim C1. With no selector and \<^verbatim>\<open>regex=False\<close>, \<^verbatim>\<open>str_replace\<close> counts the occurrences
  of \<^verbatim>\<open>old_str\<close> in the tab-expanded content; no occurrence is an error naming the path
  and \<^verbatim>\<open>old_str\<close>, two or more are an error that lists exactly one starting line per
  occurrence, and a single occurrence is replaced.

  The code counts with \<^verbatim>\<open>str.count\<close>, which does not count overlapping occurrences, but
  collects the lines with \<^verbatim>\<open>find\<close> restarted at \<^verbatim>\<open>idx + 1\<close>, which finds them. On the
  content \<^verbatim>\<open>aaaa\<close> with \<^verbatim>\<open>old_str = aa\<close> the count is 2 and the message lists three lines:
  the list is not one entry per counted occurrence. (Reading an occurrence as any place
  where \<^verbatim>\<open>old_str\<close> begins does not help: then \<^verbatim>\<open>aa\<close> occurs twice in \<^verbatim>\<open>aaa\<close>, where the
  count is 1 and the call replaces instead of failing.)
\<close>

theorem first_occurrence_lists_overlapping_matches:
  "count_str ''aaaa'' ''aa'' = 2
   \<and> str_replace re (single_file ''/f'' ''aaaa'') ''/f'' ''aa'' (Some ''b'') no_selectors
       = (single_file ''/f'' ''aaaa'', Inl (ToolError (MultipleOccurrences ''aa'' [1, 1, 1])))
   \<and> count_str ''aaa'' ''aa'' = 1
   \<and> snd (str_replace re (single_file ''/f'' ''aaa'') ''/f'' ''aa'' (Some ''b'') no_selectors)
       = Inr (edited Edited ''/f'' ''aaa'' ''ba'')"
proof -
  have "occurrence_lines ''aaaa'' ''aa'' 0 [] = [1, 1, 1]"
    by (simp add: occurrence_lines.simps find_from_def count_range_def)
  then show ?thesis
    by (simp add: eval_defs)
qed

subsection \<open>Literal replacement of all occurrences\<close>

text \<open>
  Claim C4. With \<^verbatim>\<open>line_all=True\<close> and \<^verbatim>\<open>regex=False\<close> the replacement is done line by
  line, so an \<^verbatim>\<open>old_str\<close> that contains a line feed matches nowhere, and the new content
  should then be the old content: splitting into lines and joining them again loses
  nothing.

  This branch splits with \<^verbatim>\<open>splitlines()\<close>, not with \<^verbatim>\<open>split('\n')\<close> as the branches for
  \<^verbatim>\<open>line_numbers\<close> and \<^verbatim>\<open>line_range\<close> do, and \<^verbatim>\<open>splitlines\<close> drops a final line feed. On
  a file holding \<^verbatim>\<open>a\<close> and a line feed, with an \<^verbatim>\<open>old_str\<close> of two lines that occurs nowhere,
  the file is rewritten to \<^verbatim>\<open>a\<close> alone.
\<close>

theorem line_all_literal_drops_final_newline:
  "str_replace re (single_file ''/f'' ''a\<newline>'') ''/f'' ''x\<newline>y'' (Some ''z'')
      (no_selectors\<lparr>line_all := True\<rparr>)
   = (\<lparr>files = [''/f'' \<mapsto> File ''a''], write_denied = (\<lambda>_. False),
       file_history = (\<lambda>_. [])(''/f'' := [''a\<newline>''])\<rparr>,
      Inr (edited Edited ''/f'' ''a\<newline>'' ''a''))"
  by (simp add: eval_defs)

subsection \<open>The first regex match\<close>

text \<open>
  Claim C8. With no selector and \<^verbatim>\<open>regex=True\<close>, only the first match in the whole
  content is substituted, and the matching lets a dot match a line feed, as regex mode
  does in the other branches.

  The call for this branch is \<^verbatim>\<open>re.sub(old_str, new_str, file_content, 1)\<close>: the count is
  1, but no flag is passed, while the three other regex branches pass
  \<^verbatim>\<open>flags=re.DOTALL\<close>. So for every engine the first-occurrence branch runs without
  \<^verbatim>\<open>DOTALL\<close>; with the engine \<^const>\<open>dot_engine\<close>, the pattern \<^verbatim>\<open>a.b\<close> leaves the content
  \<^verbatim>\<open>a\<close>, line feed, \<^verbatim>\<open>b\<close> as it is, and replaces it under \<^verbatim>\<open>line_all\<close>.
\<close>

theorem first_occurrence_regex_without_dotall:
  "resolve re p file_content file_content_lines old_str new_str (no_selectors\<lparr>regex := True\<rparr>)
     = re_sub re False old_str new_str file_content 1
   \<and> resolve re p file_content file_content_lines old_str new_str
        (no_selectors\<lparr>regex := True, line_all := True\<rparr>)
     = re_sub re True old_str new_str file_content 0
   \<and> snd (str_replace dot_engine (single_file ''/f'' ''a\<newline>b'') ''/f'' ''a.b'' (Some ''X'')
        (no_selectors\<lparr>regex := True\<rparr>))
     = Inr (edited Edited ''/f'' ''a\<newline>b'' ''a\<newline>b'')
   \<and> snd (str_replace dot_engine (single_file ''/f'' ''a\<newline>b'') ''/f'' ''a.b'' (Some ''X'')
        (no_selectors\<lparr>regex := True, line_all := True\<rparr>))
     = Inr (edited Edited ''/f'' ''a\<newline>b'' ''X'')"
  by (simp add: eval_defs)

subsection \<open>Undo without history\<close>

text \<open>
  Claim C9. When the history of a path is empty, \<^verbatim>\<open>undo_edit\<close> fails with the error
  \<^verbatim>\<open>No edit history found for {path}\<close>. The state may be any state with an empty history
  for the path: one where the path was never edited, or one where every entry has been
  popped (the instance below runs both: a fresh editor, and \<^verbatim>\<open>create\<close> followed by
  two undos). The test comes before the file is read, so the outcome is the same whatever
  the path holds, also when it could not be read, and the state is returned as it was.
  Through \<^verbatim>\<open>__call__\<close> the same holds once the path has passed \<^verbatim>\<open>validate_path\<close>.
\<close>

theorem undo_edit_without_history:
  assumes "file_history w p = []"
  shows "undo_edit w p = (w, Inl (ToolError (NoHistory p)))
       \<and> (validate_path w Undo_edit p = None \<longrightarrow>
            call re w Undo_edit p file_text view_range old_str new_str insert_line sel
              = (w, Inl (ToolError (NoHistory p))))"
  using assms by (simp add: undo_edit_def call_def)

theorem undo_edit_without_history_witness:
  "file_history (single_file ''/f'' ''x'') ''/f'' = []
   \<and> validate_path (single_file ''/f'' ''x'') Undo_edit ''/f'' = None
   \<and> undo_edit (single_file ''/f'' ''x'') ''/f''
        = (single_file ''/f'' ''x'', Inl (ToolError (NoHistory ''/f'')))
   \<and> call dot_engine (single_file ''/f'' ''x'') Undo_edit ''/f'' None None None None None
        no_selectors
        = (single_file ''/f'' ''x'', Inl (ToolError (NoHistory ''/f'')))
   \<and> snd (undo_edit
        (fst (call dot_engine no_files Create ''/f'' (Some ''x'') None None None None no_selectors))
        ''/f'')
       = Inr (edited Undone ''/f'' ''x'' ''x'')
   \<and> file_history (fst (undo_edit
        (fst (call dot_engine no_files Create ''/f'' (Some ''x'') None None None None no_selectors))
        ''/f'')) ''/f'' = []
   \<and> snd (undo_edit (fst (undo_edit
        (fst (call dot_engine no_files Create ''/f'' (Some ''x'') None None None None no_selectors))
        ''/f'')) ''/f'')
       = Inl (ToolError (NoHistory ''/f''))"
proof -
  let ?w1 = "fst (call dot_engine no_files Create ''/f'' (Some ''x'') None None None None
    no_selectors)"
  let ?w2 = "fst (undo_edit ?w1 ''/f'')"
  have h: "file_history (single_file ''/f'' ''x'') ''/f'' = []"
    by (simp add: single_file_def)
  have v: "validate_path (single_file ''/f'' ''x'') Undo_edit ''/f'' = None"
    by (simp add: single_file_def validate_path_def is_absolute_def)
  have u: "snd (undo_edit ?w1 ''/f'') = Inr (edited Undone ''/f'' ''x'' ''x'')"
    and h2: "file_history ?w2 ''/f'' = []"
    by (simp_all add: call_def validate_path_def is_absolute_def no_files_def write_file_def
        history_append_def undo_edit_def read_file_def expandtabs_def edited_def Let_def)
  from undo_edit_without_history [OF h2, of dot_engine None None None None None no_selectors]
  have "snd (undo_edit ?w2 ''/f'') = Inl (ToolError (NoHistory ''/f''))"
    by simp
  with undo_edit_without_history [OF h, of dot_engine None None None None None no_selectors]
    h v u h2
  show ?thesis by simp
qed


subsection \<open>Validation of the line parameters\<close>

lemma list_min_Min: "xs \<noteq> [] \<Longrightarrow> list_min xs = Min (set xs)"
  by (cases xs) (simp_all add: list_min_def Min.set_eq_fold [symmetric])

lemma list_max_Max: "xs \<noteq> [] \<Longrightarrow> list_max xs = Max (set xs)"
  by (cases xs) (simp_all add: list_max_def Max.set_eq_fold [symmetric])

lemma validate_min_or_max_None:
  assumes "xs \<noteq> []"
  shows "validate_min_or_max pat (list_min xs) (list_max xs) n = None
           \<longleftrightarrow> (\<forall>i\<in>set xs. 1 \<le> i \<and> i \<le> int n)"
proof
  assume none: "validate_min_or_max pat (list_min xs) (list_max xs) n = None"
  have lo: "\<not> Min (set xs) \<le> 0" and hi: "\<not> int n < Max (set xs)"
    using none unfolding validate_min_or_max_def list_min_Min [OF assms] list_max_Max [OF assms]
    by (metis option.distinct(1))+
  show "\<forall>i\<in>set xs. 1 \<le> i \<and> i \<le> int n"
  proof
    fix i assume "i \<in> set xs"
    then have "Min (set xs) \<le> i" and "i \<le> Max (set xs)"
      by simp_all
    with lo hi show "1 \<le> i \<and> i \<le> int n" by arith
  qed
next
  assume all: "\<forall>i\<in>set xs. 1 \<le> i \<and> i \<le> int n"
  have "Min (set xs) \<in> set xs" and "Max (set xs) \<in> set xs"
    using assms by (simp_all add: Min_in Max_in)
  with all have "1 \<le> Min (set xs)" and "Max (set xs) \<le> int n"
    by blast+
  then have "\<not> Min (set xs) \<le> 0" and "\<not> int n < Max (set xs)"
    by linarith+
  then show "validate_min_or_max pat (list_min xs) (list_max xs) n = None"
    unfolding validate_min_or_max_def list_min_Min [OF assms] list_max_Max [OF assms]
    by (simp only: if_False)
qed

lemma validate_min_or_max_Some:
  assumes "xs \<noteq> []"
    and "validate_min_or_max pat (list_min xs) (list_max xs) n = Some e"
  shows "\<exists>b\<in>set xs. (b < 1 \<or> int n < b) \<and> e = ToolError (InvalidLine pat b n)"
proof -
  have "Min (set xs) \<in> set xs" and "Max (set xs) \<in> set xs"
    using assms(1) by (simp_all add: Min_in Max_in)
  moreover have "validate_min_or_max pat (Min (set xs)) (Max (set xs)) n = Some e"
    using assms(2) unfolding list_min_Min [OF assms(1)] list_max_Max [OF assms(1)] .
  ultimately show ?thesis
    unfolding validate_min_or_max_def
    by (metis option.inject option.distinct(1) not_le less_le_trans zero_less_one)
qed

lemma validate_range_None:
  "validate_range pat [s, t] n = None
     \<longleftrightarrow> (1 \<le> s \<and> s \<le> int n \<and> 1 \<le> t \<and> t \<le> int n \<and> s \<le> t)"
  using validate_min_or_max_None [of "[s, t]" pat n]
  by (auto simp: validate_range_def split: option.splits)

lemma validate_range_Some:
  assumes "validate_range pat [s, t] n = Some e"
  shows "(\<exists>b\<in>{s, t}. (b < 1 \<or> int n < b) \<and> e = ToolError (InvalidLine pat b n))
       \<or> (t < s \<and> e = ToolError (InvalidRangeOrder pat [s, t]))"
  using assms validate_min_or_max_Some [of "[s, t]" pat n]
  by (auto simp: validate_range_def split: option.splits if_splits)

text \<open>The first error of four checks in sequence.\<close>

lemma first_error_Some:
  "(case a of Some e \<Rightarrow> Some e | None \<Rightarrow>
      case b of Some e \<Rightarrow> Some e | None \<Rightarrow>
      case c of Some e \<Rightarrow> Some e | None \<Rightarrow> d) = Some (e::error)
   \<Longrightarrow> a = Some e \<or> b = Some e \<or> c = Some e \<or> d = Some e"
  by (cases a; cases b; cases c; simp)

lemma first_error_None:
  "(case a of Some e \<Rightarrow> Some e | None \<Rightarrow>
      case b of Some e \<Rightarrow> Some e | None \<Rightarrow>
      case c of Some e \<Rightarrow> Some e | None \<Rightarrow> d) = (None :: error option)
   \<longleftrightarrow> a = None \<and> b = None \<and> c = None \<and> d = None"
  by (cases a; cases b; cases c; simp)

lemma check_list_None:
  "(if xs \<noteq> [] then validate_min_or_max pat (list_min xs) (list_max xs) n else None) = None
     \<longleftrightarrow> (\<forall>i\<in>set xs. 1 \<le> i \<and> i \<le> int n)"
  using validate_min_or_max_None [of xs pat n] by (cases "xs = []") simp_all

lemma check_list_Some:
  "(if xs \<noteq> [] then validate_min_or_max pat (list_min xs) (list_max xs) n else None) = Some e
   \<Longrightarrow> \<exists>b\<in>set xs. (b < 1 \<or> int n < b) \<and> e = ToolError (InvalidLine pat b n)"
  using validate_min_or_max_Some [of xs pat n e] by (cases "xs = []") simp_all

lemma check_range_None:
  assumes "xs = [] \<or> (\<exists>s t. xs = [s, t])"
  shows "(if xs \<noteq> [] then validate_range pat xs n else None) = None
     \<longleftrightarrow> (\<forall>i\<in>set xs. 1 \<le> i \<and> i \<le> int n) \<and> (\<forall>s t. xs = [s, t] \<longrightarrow> s \<le> t)"
  using assms by (auto simp: validate_range_None)

lemma check_range_Some:
  assumes "xs = [] \<or> (\<exists>s t. xs = [s, t])"
    and "(if xs \<noteq> [] then validate_range pat xs n else None) = Some e"
  shows "(\<exists>b\<in>set xs. (b < 1 \<or> int n < b) \<and> e = ToolError (InvalidLine pat b n))
       \<or> (\<exists>s t. xs = [s, t] \<and> t < s \<and> e = ToolError (InvalidRangeOrder pat xs))"
proof -
  from assms obtain s t where xs: "xs = [s, t]"
    by auto
  with assms(2) have "validate_range pat [s, t] n = Some e"
    by simp
  from validate_range_Some [OF this] xs show ?thesis
    by auto
qed

lemma str_replace_validation_error:
  assumes "read_file w p = Inr raw"
    and "validate_selectors sel (length (split_nl (expandtabs raw))) = Some e"
  shows "str_replace re w p old_str new_str sel = (w, Inl e)"
  using assms by (simp add: str_replace_def Let_def)

text \<open>
  Claim C2. When \<^verbatim>\<open>str_replace\<close> is given \<^verbatim>\<open>line_numbers\<close>, \<^verbatim>\<open>line_range\<close>,
  \<^verbatim>\<open>delete_lines\<close> or \<^verbatim>\<open>delete_range\<close>, every index must lie in \<open>1 .. num_lines\<close>, the
  number of lines of the tab-expanded file, and a range \<open>[start, end]\<close> must have
  \<open>start \<le> end\<close>. Whenever one of the supplied parameters breaks this, the call fails
  before anything is written: the state returned is the state given, so neither the
  file nor the history has changed. The error names what is wrong: for an index out of
  bounds it is \<^verbatim>\<open>Invalid {pattern}: {bound}. Line numbers must be between 1 and {num_lines}\<close>
  with an offending element of that parameter, and for a range in bounds with
  \<open>start > end\<close> it is \<^verbatim>\<open>Invalid {pattern}: {range}. Start line must be less than or equal to end line\<close>.
  All four parameters are checked, also those that a parameter of higher precedence
  would make irrelevant.
\<close>

theorem str_replace_validates_before_mutation:
  assumes read: "read_file w p = Inr raw"
    and n: "n = length (split_nl (expandtabs raw))"
    and lr: "items (line_range sel) = [] \<or> (\<exists>s t. items (line_range sel) = [s, t])"
    and dr: "items (delete_range sel) = [] \<or> (\<exists>s t. items (delete_range sel) = [s, t])"
    and bad: "(\<exists>i \<in> set (items (line_numbers sel)) \<union> set (items (line_range sel))
                   \<union> set (items (delete_lines sel)) \<union> set (items (delete_range sel)).
                 i < 1 \<or> int n < i)
            \<or> (\<exists>s t. (items (line_range sel) = [s, t] \<or> items (delete_range sel) = [s, t]) \<and> t < s)"
  shows "\<exists>e. str_replace re w p old_str new_str sel = (w, Inl (ToolError e)) \<and>
           ((\<exists>(pat, xs) \<in> {(''line number'', items (line_numbers sel)),
                             (''line range'', items (line_range sel)),
                             (''delete lines'', items (delete_lines sel)),
                             (''delete range'', items (delete_range sel))}.
               \<exists>b\<in>set xs. (b < 1 \<or> int n < b) \<and> e = InvalidLine pat b n)
          \<or> (\<exists>(pat, xs) \<in> {(''line range'', items (line_range sel)),
                             (''delete range'', items (delete_range sel))}.
               \<exists>s t. xs = [s, t] \<and> t < s \<and> e = InvalidRangeOrder pat xs))"
proof -
  let ?c1 = "if items (line_numbers sel) \<noteq> []
             then validate_min_or_max ''line number'' (list_min (items (line_numbers sel)))
                    (list_max (items (line_numbers sel))) n
             else None"
  let ?c2 = "if items (line_range sel) \<noteq> []
             then validate_range ''line range'' (items (line_range sel)) n else None"
  let ?c3 = "if items (delete_lines sel) \<noteq> []
             then validate_min_or_max ''delete lines'' (list_min (items (delete_lines sel)))
                    (list_max (items (delete_lines sel))) n
             else None"
  let ?c4 = "if items (delete_range sel) \<noteq> []
             then validate_range ''delete range'' (items (delete_range sel)) n else None"
  have "\<not> (?c1 = None \<and> ?c2 = None \<and> ?c3 = None \<and> ?c4 = None)"
    using bad unfolding check_list_None check_range_None [OF lr] check_range_None [OF dr]
    by (auto simp: not_le)
  then have "validate_selectors sel n \<noteq> None"
    unfolding validate_selectors_def first_error_None .
  then obtain e where some: "validate_selectors sel n = Some e"
    by auto
  then have which: "?c1 = Some e \<or> ?c2 = Some e \<or> ?c3 = Some e \<or> ?c4 = Some e"
    unfolding validate_selectors_def by (rule first_error_Some)
  have run: "str_replace re w p old_str new_str sel = (w, Inl e)"
    using read some unfolding n by (rule str_replace_validation_error)
  from which show ?thesis
  proof (elim disjE)
    assume "?c1 = Some e"
    from check_list_Some [OF this] run show ?thesis by auto
  next
    assume "?c2 = Some e"
    from check_range_Some [OF lr this] run show ?thesis by auto
  next
    assume "?c3 = Some e"
    from check_list_Some [OF this] run show ?thesis by auto
  next
    assume "?c4 = Some e"
    from check_range_Some [OF dr this] run show ?thesis by auto
  qed
qed

theorem str_replace_validates_before_mutation_witness:
  "read_file (single_file ''/f'' ''a\<newline>b'') ''/f'' = Inr ''a\<newline>b''
   \<and> length (split_nl (expandtabs ''a\<newline>b'')) = 2
   \<and> str_replace dot_engine (single_file ''/f'' ''a\<newline>b'') ''/f'' ''a'' (Some ''x'')
        (no_selectors\<lparr>line_all := True, delete_range := Some [2, 3]\<rparr>)
       = (single_file ''/f'' ''a\<newline>b'', Inl (ToolError (InvalidLine ''delete range'' 3 2)))
   \<and> str_replace dot_engine (single_file ''/f'' ''a\<newline>b'') ''/f'' ''a'' (Some ''x'')
        (no_selectors\<lparr>delete_lines := Some [1], line_range := Some [2, 1]\<rparr>)
       = (single_file ''/f'' ''a\<newline>b'', Inl (ToolError (InvalidRangeOrder ''line range'' [2, 1])))"
proof -
  let ?w = "single_file ''/f'' ''a\<newline>b''"
  let ?s1 = "no_selectors\<lparr>line_all := True, delete_range := Some [2, 3]\<rparr>"
  let ?s2 = "no_selectors\<lparr>delete_lines := Some [1], line_range := Some [2, 1]\<rparr>"
  have r: "read_file ?w ''/f'' = Inr ''a\<newline>b''"
    by (simp add: read_file_def single_file_def)
  have n: "2 = length (split_nl (expandtabs ''a\<newline>b''))"
    by (simp add: expandtabs_def)
  have a: "\<exists>e. str_replace dot_engine ?w ''/f'' ''a'' (Some ''x'') ?s1 = (?w, Inl (ToolError e))"
    using str_replace_validates_before_mutation [OF r n, of ?s1 dot_engine "''a''" "Some ''x''"]
    by (auto simp: no_selectors_def items_def)
  have b: "\<exists>e. str_replace dot_engine ?w ''/f'' ''a'' (Some ''x'') ?s2 = (?w, Inl (ToolError e))"
    using str_replace_validates_before_mutation [OF r n, of ?s2 dot_engine "''a''" "Some ''x''"]
    by (auto simp: no_selectors_def items_def)
  from a b r n show ?thesis
    by (simp add: eval_defs)
qed


subsection \<open>Insertion points\<close>

lemma split_nl_nonempty [simp]: "split_nl s \<noteq> []"
  by (induction s) auto

lemma join_nl_Cons: "ls \<noteq> [] \<Longrightarrow> join_nl (l # ls) = l @ LF # join_nl ls"
  by (cases ls) auto

text \<open>Joining the lines of a text with line feeds gives the text back.\<close>

lemma join_nl_split_nl [simp]: "join_nl (split_nl s) = s"
proof (induction s)
  case Nil
  show ?case by simp
next
  case (Cons c cs)
  obtain l ls where sp: "split_nl cs = l # ls"
    by (cases "split_nl cs") auto
  with Cons show ?case
    by (cases ls) auto
qed

lemma join_nl_append:
  "xs \<noteq> [] \<Longrightarrow> ys \<noteq> [] \<Longrightarrow> join_nl (xs @ ys) = join_nl xs @ LF # join_nl ys"
proof (induction xs rule: join_nl.induct)
  case 1
  then show ?case by simp
next
  case (2 l)
  then show ?case by (simp add: join_nl_Cons)
next
  case (3 l m ls)
  then show ?case by simp
qed

lemma read_file_is_file: "read_file w p = Inr raw \<Longrightarrow> files w p \<noteq> Some Dir"
  by (auto simp: read_file_def split: option.splits entry.splits)

text \<open>
  Claim C7. For a file of \<open>num_lines\<close> lines (tab-expanded, split at line feeds),
  \<^verbatim>\<open>insert\<close> accepts exactly the insertion points \<open>0 .. num_lines\<close>. Outside them (so
  also at \<open>num_lines + 1\<close>) it fails with \<^verbatim>\<open>EditorToolParameterInvalidError\<close> and changes
  nothing. Inside them, when the write is allowed, the new text, split at line feeds,
  is spliced in as whole lines between the first \<open>insert_line\<close> lines and the rest, the
  result is written and the old text goes to the history. At 0 the new lines come before
  the whole old text, at \<open>num_lines\<close> after it.
\<close>

theorem insert_cmd_insertion_points:
  assumes "read_file w p = Inr raw"
  shows "let file_text = expandtabs raw;
             new_text = expandtabs new_str;
             ls = split_nl file_text;
             spliced = join_nl (take (nat insert_line) ls @ split_nl new_text
                                 @ drop (nat insert_line) ls)
         in
           (insert_line < 0 \<or> int (length ls) < insert_line \<longrightarrow>
              insert_cmd w p insert_line new_str
                = (w, Inl (EditorToolParameterInvalidError ''insert_line'' (PInt insert_line)
                             (InsertLineOutOfLines (length ls)))))
         \<and> (0 \<le> insert_line \<and> insert_line \<le> int (length ls) \<and> \<not> write_denied w p \<longrightarrow>
              insert_cmd w p insert_line new_str
                = (history_append (w\<lparr>files := (files w)(p \<mapsto> File spliced)\<rparr>) p file_text,
                   Inr (edited Inserted p file_text spliced)))
         \<and> (insert_line = 0 \<longrightarrow> spliced = new_text @ LF # file_text)
         \<and> (insert_line = int (length ls) \<longrightarrow> spliced = file_text @ LF # new_text)"
proof -
  have nd: "files w p \<noteq> Some Dir"
    using assms by (rule read_file_is_file)
  show ?thesis
    unfolding Let_def
  proof (intro conjI impI)
    assume "insert_line < 0 \<or> int (length (split_nl (expandtabs raw))) < insert_line"
    then show "insert_cmd w p insert_line new_str
        = (w, Inl (EditorToolParameterInvalidError ''insert_line'' (PInt insert_line)
                     (InsertLineOutOfLines (length (split_nl (expandtabs raw))))))"
      using assms by (auto simp: insert_cmd_def Let_def)
  next
    assume "0 \<le> insert_line \<and> insert_line \<le> int (length (split_nl (expandtabs raw)))
        \<and> \<not> write_denied w p"
    then show "insert_cmd w p insert_line new_str
        = (history_append (w\<lparr>files := (files w)(p \<mapsto> File (join_nl
              (take (nat insert_line) (split_nl (expandtabs raw)) @ split_nl (expandtabs new_str)
                @ drop (nat insert_line) (split_nl (expandtabs raw)))))\<rparr>) p (expandtabs raw),
           Inr (edited Inserted p (expandtabs raw) (join_nl
              (take (nat insert_line) (split_nl (expandtabs raw)) @ split_nl (expandtabs new_str)
                @ drop (nat insert_line) (split_nl (expandtabs raw))))))"
      using assms nd by (simp add: insert_cmd_def Let_def write_file_def)
  next
    assume "insert_line = 0"
    then show "join_nl (take (nat insert_line) (split_nl (expandtabs raw))
                @ split_nl (expandtabs new_str)
                @ drop (nat insert_line) (split_nl (expandtabs raw)))
        = expandtabs new_str @ LF # expandtabs raw"
      by (simp add: join_nl_append)
  next
    assume "insert_line = int (length (split_nl (expandtabs raw)))"
    then show "join_nl (take (nat insert_line) (split_nl (expandtabs raw))
                @ split_nl (expandtabs new_str)
                @ drop (nat insert_line) (split_nl (expandtabs raw)))
        = expandtabs raw @ LF # expandtabs new_str"
      by (simp add: join_nl_append)
  qed
qed

theorem insert_cmd_insertion_points_witness:
  "read_file (single_file ''/f'' ''a\<newline>b'') ''/f'' = Inr ''a\<newline>b''
   \<and> length (split_nl (expandtabs ''a\<newline>b'')) = 2
   \<and> snd (insert_cmd (single_file ''/f'' ''a\<newline>b'') ''/f'' 0 ''x\<newline>y'')
       = Inr (edited Inserted ''/f'' ''a\<newline>b'' ''x\<newline>y\<newline>a\<newline>b'')
   \<and> snd (insert_cmd (single_file ''/f'' ''a\<newline>b'') ''/f'' 1 ''x\<newline>y'')
       = Inr (edited Inserted ''/f'' ''a\<newline>b'' ''a\<newline>x\<newline>y\<newline>b'')
   \<and> snd (insert_cmd (single_file ''/f'' ''a\<newline>b'') ''/f'' 2 ''x\<newline>y'')
       = Inr (edited Inserted ''/f'' ''a\<newline>b'' ''a\<newline>b\<newline>x\<newline>y'')
   \<and> insert_cmd (single_file ''/f'' ''a\<newline>b'') ''/f'' 3 ''x\<newline>y''
       = (single_file ''/f'' ''a\<newline>b'',
          Inl (EditorToolParameterInvalidError ''insert_line'' (PInt 3) (InsertLineOutOfLines 2)))
   \<and> insert_cmd (single_file ''/f'' ''a\<newline>b'') ''/f'' (- 1) ''x\<newline>y''
       = (single_file ''/f'' ''a\<newline>b'',
          Inl (EditorToolParameterInvalidError ''insert_line'' (PInt (- 1)) (InsertLineOutOfLines 2)))"
proof -
  let ?w = "single_file ''/f'' ''a\<newline>b''"
  have r: "read_file ?w ''/f'' = Inr ''a\<newline>b''"
    by (simp add: read_file_def single_file_def)
  have d: "\<not> write_denied ?w ''/f''"
    by (simp add: single_file_def)
  note t = insert_cmd_insertion_points [OF r, where new_str = "''x\<newline>y''"]
  from t [of 0] t [of 1] t [of 2] t [of 3] t [of "- 1"] r d show ?thesis
    by (simp add: Let_def expandtabs_def edited_def)
qed



subsection \<open>Replacement on listed lines\<close>

text \<open>
  The loop over the listed lines, for a substitution that cannot fail: every index in
  range is rewritten once for each time it is listed, and nothing else changes.
\<close>


lemma replace_on_lines_literal:
  assumes "\<forall>i\<in>set is. 0 \<le> i \<and> i < int (length ls)"
  shows "\<exists>r. replace_on_lines (\<lambda>l. Inr (f l)) is ls = Inr r \<and> length r = length ls
           \<and> (\<forall>j<length ls. r ! j = (f ^^ count_list is (int j)) (ls ! j))"
  using assms
proof (induction "is" arbitrary: ls)
  case Nil
  then show ?case by simp
next
  case (Cons i "is")
  let ?k = "nat i"
  let ?ls = "ls[?k := f (ls ! ?k)]"
  from Cons.prems have i: "0 \<le> i" "i < int (length ls)"
    by simp_all
  from Cons.prems have "\<forall>i\<in>set is. 0 \<le> i \<and> i < int (length ?ls)"
    by simp
  from Cons.IH [OF this] obtain r where r: "replace_on_lines (\<lambda>l. Inr (f l)) is ?ls = Inr r"
    "length r = length ls" "\<forall>j<length ls. r ! j = (f ^^ count_list is (int j)) (?ls ! j)"
    by auto
  have run: "replace_on_lines (\<lambda>l. Inr (f l)) (i # is) ls = Inr r"
    using i r(1) by (simp add: Let_def)
  have "r ! j = (f ^^ count_list (i # is) (int j)) (ls ! j)" if j: "j < length ls" for j
  proof (cases "j = ?k")
    case True
    with i have "i = int j" by simp
    with True j r(3) show ?thesis
      by (simp add: funpow_swap1)
  next
    case False
    with i have "i \<noteq> int j" by auto
    with False j r(3) show ?thesis
      by simp
  qed
  with run r(2) show ?case
    by blast
qed

lemma count_list_shift: "count_list (map (\<lambda>i. i - 1) xs) (int j) = count_list xs (int j + 1)"
  by (induction xs) auto


lemma write_file_Inr:
  "write_file w p t = Inr w1 \<Longrightarrow> w1 = w\<lparr>files := (files w)(p \<mapsto> File t)\<rparr> \<and> \<not> write_denied w p"
  by (auto simp: write_file_def split: if_splits)

lemma validate_selectors_line_numbers_first:
  assumes "(if items (line_numbers sel) \<noteq> []
            then validate_min_or_max ''line number'' (list_min (items (line_numbers sel)))
                   (list_max (items (line_numbers sel))) n
            else None) = Some e"
  shows "validate_selectors sel n = Some e"
  unfolding validate_selectors_def using assms by simp

lemma validate_selectors_passes:
  assumes "\<forall>i \<in> set (items (line_numbers sel)) \<union> set (items (line_range sel))
                   \<union> set (items (delete_lines sel)) \<union> set (items (delete_range sel)).
             1 \<le> i \<and> i \<le> int n"
    and "items (line_range sel) = [] \<or> (\<exists>s t. items (line_range sel) = [s, t] \<and> s \<le> t)"
    and "items (delete_range sel) = [] \<or> (\<exists>s t. items (delete_range sel) = [s, t] \<and> s \<le> t)"
  shows "validate_selectors sel n = None"
proof -
  have lr: "items (line_range sel) = [] \<or> (\<exists>s t. items (line_range sel) = [s, t])"
    and dr: "items (delete_range sel) = [] \<or> (\<exists>s t. items (delete_range sel) = [s, t])"
    using assms(2,3) by auto
  show ?thesis
    unfolding validate_selectors_def first_error_None check_list_None
      check_range_None [OF lr] check_range_None [OF dr]
    using assms by auto
qed

lemma replace_on_lines_untouched:
  assumes "replace_on_lines sub is ls = Inr r"
    and "\<forall>i\<in>set is. 0 \<le> i \<and> i < int (length ls)"
  shows "length r = length ls \<and> (\<forall>j<length ls. int j \<notin> set is \<longrightarrow> r ! j = ls ! j)"
  using assms
proof (induction "is" arbitrary: ls)
  case Nil
  then show ?case by simp
next
  case (Cons i "is")
  from Cons.prems(2) have i: "0 \<le> i" "i < int (length ls)"
    by simp_all
  with Cons.prems(1) obtain l where l: "sub (ls ! nat i) = Inr l"
    and run: "replace_on_lines sub is (ls[nat i := l]) = Inr r"
    by (auto simp: Let_def split: sum.splits)
  from Cons.prems(2) have "\<forall>k\<in>set is. 0 \<le> k \<and> k < int (length (ls[nat i := l]))"
    by simp
  from Cons.IH [OF run this]
  have len: "length r = length ls"
    and same: "\<forall>j<length ls. int j \<notin> set is \<longrightarrow> r ! j = ls[nat i := l] ! j"
    by simp_all
  have "r ! j = ls ! j" if "j < length ls" and "int j \<notin> set (i # is)" for j
  proof -
    from that have "int j \<notin> set is" and "nat i \<noteq> j"
      using i by auto
    with same that(1) show ?thesis
      by simp
  qed
  with len show ?case
    by blast
qed

lemma line_numbers_leave_other_lines:
  assumes read: "read_file w p = Inr raw"
    and ls: "ls = split_nl (expandtabs raw)"
    and given: "items (line_numbers sel) \<noteq> []"
    and inside: "\<forall>i\<in>set (items (line_numbers sel)). 1 \<le> i \<and> i \<le> int (length ls)"
    and sel: "items (delete_lines sel) = []" "items (delete_range sel) = []" "\<not> line_all sel"
    and run: "str_replace re w p old_str new_str sel = (w', Inr res)"
  shows "\<exists>r. r_new_content res = Some (join_nl r) \<and> files w' p = Some (File (join_nl r))
           \<and> length r = length ls
           \<and> (\<forall>j<length ls. int j + 1 \<notin> set (items (line_numbers sel)) \<longrightarrow> r ! j = ls ! j)"
proof -
  let ?lns = "items (line_numbers sel)"
  let ?old = "expandtabs old_str"
  let ?new = "case new_str of None \<Rightarrow> [] | Some n \<Rightarrow> expandtabs n"
  let ?sub = "substitute re (regex sel) ?old ?new"
  from run read sel given obtain r where
    r: "replace_on_lines ?sub (map (\<lambda>i. i - 1) ?lns) ls = Inr r"
    and out: "r_new_content res = Some (join_nl r)" "files w' p = Some (File (join_nl r))"
    by (auto simp: str_replace_def Let_def resolve_def ls edited_def history_append_def
        split: option.splits sum.splits if_splits dest!: write_file_Inr)
  from inside have "\<forall>i\<in>set (map (\<lambda>i. i - 1) ?lns). 0 \<le> i \<and> i < int (length ls)"
    by fastforce
  from replace_on_lines_untouched [OF r this]
  have len: "length r = length ls"
    and same: "\<forall>j<length ls. int j \<notin> set (map (\<lambda>i. i - 1) ?lns) \<longrightarrow> r ! j = ls ! j"
    by simp_all
  have "r ! j = ls ! j" if "j < length ls" and "int j + 1 \<notin> set ?lns" for j
  proof -
    from that(2) have "int j \<notin> set (map (\<lambda>i. i - 1) ?lns)"
      by force
    with same that(1) show ?thesis
      by simp
  qed
  with out len show ?thesis
    by blast
qed

text \<open>
  With \<^verbatim>\<open>line_all=True\<close> the branch for \<^verbatim>\<open>line_numbers\<close> is not reached (it is under
  \<^verbatim>\<open>if not line_all\<close>): every line is rewritten, whatever \<^verbatim>\<open>line_numbers\<close> names.
\<close>

lemma line_all_overrides_line_numbers:
  "snd (str_replace re (single_file ''/f'' ''a\<newline>a'') ''/f'' ''a'' (Some ''x'')
      (no_selectors\<lparr>line_numbers := Some [1], line_all := True\<rparr>))
   = Inr (edited Edited ''/f'' ''a\<newline>a'' ''x\<newline>x'')"
  by (simp add: eval_defs)

text \<open>
  Claim C3. With \<^verbatim>\<open>line_numbers\<close> supplied (and no \<^verbatim>\<open>delete_lines\<close>, no
  \<^verbatim>\<open>delete_range\<close>), a line number outside the file is skipped silently, the
  substitution is applied to the named lines that exist, and the other lines are left
  as they are. The docstring of \<^verbatim>\<open>str_replace\<close> says the same (\<^verbatim>\<open>If a line number is out
  of range, it will be ignored\<close>), and the loop has the test for it
  (\<^verbatim>\<open>if i < len(file_content_lines)\<close>).

  The code does not do it: \<^verbatim>\<open>line_numbers\<close> is checked against \<open>1 .. num_lines\<close> before
  the loop, so a number outside the file raises \<^verbatim>\<open>Invalid line number\<close> and the test in
  the loop never fails. On a file of two lines, \<^verbatim>\<open>line_numbers=[1, 5]\<close> is an error, line 1
  is not rewritten and the state is the one given.
\<close>

theorem line_number_beyond_file_is_rejected:
  "str_replace dot_engine (single_file ''/f'' ''a\<newline>b'') ''/f'' ''a'' (Some ''x'')
      (no_selectors\<lparr>line_numbers := Some [1, 5]\<rparr>)
   = (single_file ''/f'' ''a\<newline>b'', Inl (ToolError (InvalidLine ''line number'' 5 2)))"
  by (simp add: eval_defs)

text \<open>
  What the code does with \<^verbatim>\<open>line_numbers\<close>, in general. A number outside
  \<open>1 .. num_lines\<close> makes the call fail with \<^verbatim>\<open>Invalid line number\<close>, naming such a
  number, and the state is the one given. When all of them are inside and \<^verbatim>\<open>line_all\<close> is
  off, the text written is a list with one entry for each old line, joined with line
  feeds, in which the entry of a line that is not named is the old line; in literal mode
  the entry of a named line is the old line with \<^verbatim>\<open>old_str\<close> replaced by \<^verbatim>\<open>new_str\<close> once
  for each time the line is named. An entry may hold line feeds of its own, from a
  \<^verbatim>\<open>new_str\<close> of several lines; the file then has more lines than before.
\<close>

lemma line_numbers_checked_then_applied_to_named_lines:
  assumes read: "read_file w p = Inr raw"
    and ls: "ls = split_nl (expandtabs raw)"
    and old: "old = expandtabs old_str"
    and new: "new = (case new_str of None \<Rightarrow> [] | Some s \<Rightarrow> expandtabs s)"
    and given: "items (line_numbers sel) \<noteq> []"
  shows "((\<exists>i\<in>set (items (line_numbers sel)). i < 1 \<or> int (length ls) < i) \<longrightarrow>
            (\<exists>b\<in>set (items (line_numbers sel)). (b < 1 \<or> int (length ls) < b) \<and>
               str_replace re w p old_str new_str sel
                 = (w, Inl (ToolError (InvalidLine ''line number'' b (length ls))))))
       \<and> ((\<forall>i\<in>set (items (line_numbers sel)). 1 \<le> i \<and> i \<le> int (length ls))
            \<and> (items (line_range sel) = []
                \<or> (\<exists>s t. items (line_range sel) = [s, t] \<and> 1 \<le> s \<and> s \<le> t \<and> t \<le> int (length ls)))
            \<and> items (delete_lines sel) = []
            \<and> items (delete_range sel) = [] \<and> \<not> line_all sel \<and> \<not> regex sel
            \<and> \<not> write_denied w p \<and> old \<noteq> [] \<longrightarrow>
            (\<exists>r. length r = length ls
               \<and> (\<forall>j<length ls. r ! j =
                     ((\<lambda>l. replace_str l old new) ^^ count_list (items (line_numbers sel)) (int j + 1))
                       (ls ! j))
               \<and> (\<forall>j<length ls. int j + 1 \<notin> set (items (line_numbers sel)) \<longrightarrow> r ! j = ls ! j)
               \<and> str_replace re w p old_str new_str sel
                   = (history_append (w\<lparr>files := (files w)(p \<mapsto> File (join_nl r))\<rparr>) p
                        (expandtabs raw),
                      Inr (edited Edited p (expandtabs raw) (join_nl r)))))
       \<and> ((\<forall>i\<in>set (items (line_numbers sel)). 1 \<le> i \<and> i \<le> int (length ls))
            \<and> items (delete_lines sel) = [] \<and> items (delete_range sel) = []
            \<and> \<not> line_all sel \<longrightarrow>
            (\<forall>w' res. str_replace re w p old_str new_str sel = (w', Inr res) \<longrightarrow>
               (\<exists>r. r_new_content res = Some (join_nl r) \<and> files w' p = Some (File (join_nl r))
                  \<and> length r = length ls
                  \<and> (\<forall>j<length ls. int j + 1 \<notin> set (items (line_numbers sel))
                        \<longrightarrow> r ! j = ls ! j))))"
proof (intro conjI impI allI)
  let ?lns = "items (line_numbers sel)"
  let ?n = "length ls"
  assume "\<exists>i\<in>set ?lns. i < 1 \<or> int ?n < i"
  then have "(if ?lns \<noteq> [] then validate_min_or_max ''line number'' (list_min ?lns)
                (list_max ?lns) ?n else None) \<noteq> None"
    unfolding check_list_None by (auto simp: not_le)
  then obtain e where e: "(if ?lns \<noteq> [] then validate_min_or_max ''line number'' (list_min ?lns)
                (list_max ?lns) ?n else None) = Some e"
    by blast
  have "validate_selectors sel (length (split_nl (expandtabs raw))) = Some e"
    using validate_selectors_line_numbers_first [OF e] unfolding ls .
  with read have "str_replace re w p old_str new_str sel = (w, Inl e)"
    by (rule str_replace_validation_error)
  with check_list_Some [OF e]
  show "\<exists>b\<in>set ?lns. (b < 1 \<or> int ?n < b) \<and>
          str_replace re w p old_str new_str sel = (w, Inl (ToolError (InvalidLine ''line number'' b ?n)))"
    by auto
next
  let ?lns = "items (line_numbers sel)"
  let ?f = "\<lambda>l. replace_str l old new"
  assume a: "(\<forall>i\<in>set ?lns. 1 \<le> i \<and> i \<le> int (length ls))
            \<and> (items (line_range sel) = []
                \<or> (\<exists>s t. items (line_range sel) = [s, t] \<and> 1 \<le> s \<and> s \<le> t \<and> t \<le> int (length ls)))
            \<and> items (delete_lines sel) = []
            \<and> items (delete_range sel) = [] \<and> \<not> line_all sel \<and> \<not> regex sel
            \<and> \<not> write_denied w p \<and> old \<noteq> []"
  then have v: "validate_selectors sel (length (split_nl (expandtabs raw))) = None"
    unfolding ls [symmetric] by (intro validate_selectors_passes) auto
  from a have "\<forall>i\<in>set (map (\<lambda>i. i - 1) ?lns). 0 \<le> i \<and> i < int (length ls)"
    by auto
  from replace_on_lines_literal [OF this, of ?f] obtain r where
    r: "replace_on_lines (\<lambda>l. Inr (?f l)) (map (\<lambda>i. i - 1) ?lns) ls = Inr r"
      "length r = length ls"
      "\<forall>j<length ls. r ! j = (?f ^^ count_list (map (\<lambda>i. i - 1) ?lns) (int j)) (ls ! j)"
    by blast
  have nth: "\<forall>j<length ls. r ! j = (?f ^^ count_list ?lns (int j + 1)) (ls ! j)"
    using r(3) by (simp add: count_list_shift)
  have same: "\<forall>j<length ls. int j + 1 \<notin> set ?lns \<longrightarrow> r ! j = ls ! j"
    using nth by (simp add: count_list_0_iff)
  have sub: "substitute re False old new = (\<lambda>l. Inr (?f l))"
    by (simp add: substitute_def fun_eq_iff)
  have res: "resolve re p (expandtabs raw) ls old new sel = Inr (join_nl r)"
    using a given r(1) by (simp add: resolve_def sub)
  have nd: "files w p \<noteq> Some Dir"
    using read by (rule read_file_is_file)
  have "str_replace re w p old_str new_str sel
      = (history_append (w\<lparr>files := (files w)(p \<mapsto> File (join_nl r))\<rparr>) p (expandtabs raw),
         Inr (edited Edited p (expandtabs raw) (join_nl r)))"
    using read v a res nd
    by (simp add: str_replace_def Let_def ls [symmetric] old [symmetric] new [symmetric]
        write_file_def)
  with r(2) nth same
  show "\<exists>r. length r = length ls
               \<and> (\<forall>j<length ls. r ! j = (?f ^^ count_list ?lns (int j + 1)) (ls ! j))
               \<and> (\<forall>j<length ls. int j + 1 \<notin> set ?lns \<longrightarrow> r ! j = ls ! j)
               \<and> str_replace re w p old_str new_str sel
                   = (history_append (w\<lparr>files := (files w)(p \<mapsto> File (join_nl r))\<rparr>) p
                        (expandtabs raw),
                      Inr (edited Edited p (expandtabs raw) (join_nl r)))"
    by blast
next
  fix w' res
  assume "(\<forall>i\<in>set (items (line_numbers sel)). 1 \<le> i \<and> i \<le> int (length ls))
            \<and> items (delete_lines sel) = [] \<and> items (delete_range sel) = []
            \<and> \<not> line_all sel"
    and "str_replace re w p old_str new_str sel = (w', Inr res)"
  with read ls given
  show "\<exists>r. r_new_content res = Some (join_nl r) \<and> files w' p = Some (File (join_nl r))
           \<and> length r = length ls
           \<and> (\<forall>j<length ls. int j + 1 \<notin> set (items (line_numbers sel)) \<longrightarrow> r ! j = ls ! j)"
    by (intro line_numbers_leave_other_lines) blast+
qed

lemma line_numbers_checked_then_applied_to_named_lines_example:
  "read_file (single_file ''/f'' ''a\<newline>ba\<newline>a'') ''/f'' = Inr ''a\<newline>ba\<newline>a''
   \<and> split_nl (expandtabs ''a\<newline>ba\<newline>a'') = [''a'', ''ba'', ''a'']
   \<and> snd (str_replace dot_engine (single_file ''/f'' ''a\<newline>ba\<newline>a'') ''/f'' ''a'' (Some ''x'')
        (no_selectors\<lparr>line_numbers := Some [3, 2]\<rparr>))
       = Inr (edited Edited ''/f'' ''a\<newline>ba\<newline>a'' ''a\<newline>bx\<newline>x'')
   \<and> str_replace dot_engine (single_file ''/f'' ''a\<newline>ba\<newline>a'') ''/f'' ''a'' (Some ''x'')
        (no_selectors\<lparr>line_numbers := Some [0, 2]\<rparr>)
       = (single_file ''/f'' ''a\<newline>ba\<newline>a'', Inl (ToolError (InvalidLine ''line number'' 0 3)))"
proof -
  let ?w = "single_file ''/f'' ''a\<newline>ba\<newline>a''"
  let ?s1 = "no_selectors\<lparr>line_numbers := Some [3, 2]\<rparr>"
  let ?s2 = "no_selectors\<lparr>line_numbers := Some [0, 2]\<rparr>"
  have r: "read_file ?w ''/f'' = Inr ''a\<newline>ba\<newline>a''"
    by (simp add: read_file_def single_file_def)
  have ls: "[''a'', ''ba'', ''a''] = split_nl (expandtabs ''a\<newline>ba\<newline>a'')"
    by (simp add: expandtabs_def)
  have old: "''a'' = expandtabs ''a''"
    and new: "''x'' = (case Some ''x'' of None \<Rightarrow> [] | Some s \<Rightarrow> expandtabs s)"
    by (simp_all add: expandtabs_def)
  have g1: "items (line_numbers ?s1) \<noteq> []" and g2: "items (line_numbers ?s2) \<noteq> []"
    by (simp_all add: items_def)
  have inside: "(\<forall>i\<in>set (items (line_numbers ?s1)). 1 \<le> i \<and> i \<le> int (length [''a'', ''ba'', ''a'']))
      \<and> (items (line_range ?s1) = []
          \<or> (\<exists>s t. items (line_range ?s1) = [s, t] \<and> 1 \<le> s \<and> s \<le> t
                \<and> t \<le> int (length [''a'', ''ba'', ''a''])))
      \<and> items (delete_lines ?s1) = []
      \<and> items (delete_range ?s1) = [] \<and> \<not> line_all ?s1 \<and> \<not> regex ?s1
      \<and> \<not> write_denied ?w ''/f'' \<and> ''a'' \<noteq> []"
    by (simp add: items_def no_selectors_def single_file_def)
  have outside: "\<exists>i\<in>set (items (line_numbers ?s2)). i < 1 \<or> int (length [''a'', ''ba'', ''a'']) < i"
    by (simp add: items_def)
  note t1 = line_numbers_checked_then_applied_to_named_lines [OF r ls old new g1, of dot_engine, THEN conjunct2, THEN conjunct1, rule_format, OF inside]
  note t2 = line_numbers_checked_then_applied_to_named_lines [OF r ls old new g2, of dot_engine, THEN conjunct1, rule_format, OF outside]
  from t2 have e2: "str_replace dot_engine ?w ''/f'' ''a'' (Some ''x'') ?s2
       = (?w, Inl (ToolError (InvalidLine ''line number'' 0 3)))"
    by (simp add: items_def)
  from t1 obtain t where "snd (str_replace dot_engine ?w ''/f'' ''a'' (Some ''x'') ?s1)
       = Inr (edited Edited ''/f'' (expandtabs ''a\<newline>ba\<newline>a'') t)"
    by fastforce
  then have e1: "snd (str_replace dot_engine ?w ''/f'' ''a'' (Some ''x'') ?s1)
       = Inr (edited Edited ''/f'' ''a\<newline>ba\<newline>a'' ''a\<newline>bx\<newline>x'')"
    by (simp add: eval_defs)
  from e1 e2 r ls show ?thesis
    by simp
qed


subsection \<open>A selector and no occurrence of \<^verbatim>\<open>old_str\<close>\<close>

text \<open>
  A literal \<^verbatim>\<open>old_str\<close> that \<^verbatim>\<open>count\<close> does not find in a text is not a substring of it,
  nor of any of its lines, so replacing it leaves every line as it is.
\<close>
lemma count_str_zero_iff: "count_str s sub = 0 \<longleftrightarrow> \<not> sublist sub s"
proof (induction s sub rule: count_str.induct)
  case (1 s)
  show ?case by simp
next
  case (2 a sub)
  show ?case by simp
next
  case (3 c cs a sub)
  show ?case
  proof (cases "prefix (a # sub) (c # cs)")
    case True
    then show ?thesis by (simp add: sublist_Cons_right)
  next
    case False
    with 3 show ?thesis by (auto simp: sublist_Cons_right)
  qed
qed

lemma replace_str_absent: "\<not> sublist sub s \<Longrightarrow> replace_str s sub new = s"
proof (induction s sub new rule: replace_str.induct)
  case (1 s new)
  then show ?case by simp
next
  case (2 a sub new)
  show ?case by simp
next
  case (3 c cs a sub new)
  then show ?case
    by (auto simp: sublist_Cons_right)
qed

lemma hd_split_nl_prefix: "prefix (hd (split_nl s)) s"
  by (induction s) auto

lemma split_nl_sublist: "l \<in> set (split_nl s) \<Longrightarrow> sublist l s"
proof (induction s arbitrary: l)
  case Nil
  then show ?case by simp
next
  case (Cons c cs)
  show ?case
  proof (cases "c = LF")
    case True
    with Cons show ?thesis
      by (auto simp: sublist_Cons_right)
  next
    case False
    with Cons.prems have "l = c # hd (split_nl cs) \<or> l \<in> set (tl (split_nl cs))"
      by simp
    then show ?thesis
    proof
      assume "l = c # hd (split_nl cs)"
      then have "prefix l (c # cs)"
        by (simp add: hd_split_nl_prefix)
      then show ?thesis by (rule prefix_imp_sublist)
    next
      assume "l \<in> set (tl (split_nl cs))"
      then have "l \<in> set (split_nl cs)"
        by (rule list.set_sel(2) [rotated]) simp
      from Cons.IH [OF this] show ?thesis
        by (simp add: sublist_Cons_right)
    qed
  qed
qed

lemma absent_from_lines:
  assumes "count_str s sub = 0" and "l \<in> set (split_nl s)"
  shows "replace_str l sub new = l"
proof -
  from assms(1) have "\<not> sublist sub s"
    by (simp add: count_str_zero_iff)
  moreover from assms(2) have "sublist l s"
    by (rule split_nl_sublist)
  ultimately have "\<not> sublist sub l"
    using sublist_order.order_trans by blast
  then show ?thesis by (rule replace_str_absent)
qed


text \<open>
  The errors a call can end with when one of the selectors is supplied: none of them is
  the error for a missing or for a repeated \<^verbatim>\<open>old_str\<close>.
\<close>

lemma substitute_error: "substitute re rx old new l = Inl e \<Longrightarrow> e = ReError"
  by (auto simp: substitute_def re_sub_def split: if_splits option.splits)

lemma replace_on_lines_error:
  assumes "\<And>l e. sub l = Inl e \<Longrightarrow> e = ReError"
    and "replace_on_lines sub is ls = Inl e"
  shows "e = IndexError \<or> e = ReError"
  using assms(2)
proof (induction "is" arbitrary: ls)
  case Nil
  then show ?case by simp
next
  case (Cons i "is")
  then show ?case
    using assms(1) by (auto simp: Let_def split: if_splits sum.splits)
qed

lemma resolve_error:
  assumes "line_all sel \<or> items (line_numbers sel) \<noteq> [] \<or> items (line_range sel) \<noteq> []"
    and "resolve re p c ls old new sel = Inl e"
  shows "e = IndexError \<or> e = ReError \<or> e = ValueError ''unpack''"
proof -
  have rol: "e' = IndexError \<or> e' = ReError"
    if "replace_on_lines (substitute re (regex sel) old new) is ls = Inl e'" for "is" e'
    using substitute_error that by (rule replace_on_lines_error)
  show ?thesis
    using assms rol
    by (auto simp: resolve_def re_sub_def split: if_splits sum.splits list.splits option.splits)
qed

lemma validate_min_or_max_error:
  "validate_min_or_max pat a b n = Some e \<Longrightarrow> \<not> is_match_error e"
  by (auto simp: validate_min_or_max_def is_match_error_def split: if_splits)

lemma validate_range_error: "validate_range pat r n = Some e \<Longrightarrow> \<not> is_match_error e"
  by (auto simp: validate_range_def is_match_error_def
      split: option.splits list.splits if_splits dest: validate_min_or_max_error)

lemma validate_selectors_error:
  assumes "validate_selectors sel n = Some e"
  shows "\<not> is_match_error e"
proof -
  note first_error_Some [OF assms [unfolded validate_selectors_def]]
  then show ?thesis
    by (auto split: if_splits dest: validate_min_or_max_error validate_range_error)
qed

lemma read_file_error: "read_file w p = Inl e \<Longrightarrow> e = ToolError (ReadFailure p)"
  by (auto simp: read_file_def split: option.splits entry.splits)

lemma write_file_error: "write_file w p t = Inl e \<Longrightarrow> e = ToolError (WriteFailure p)"
  by (auto simp: write_file_def split: if_splits)

lemma delete_and_return_error:
  "snd (delete_and_return w p n c c') = Inl e \<Longrightarrow> e = ToolError (WriteFailure p)"
  by (auto simp: delete_and_return_def split: sum.splits dest: write_file_error)

lemma str_replace_no_match_error:
  assumes active: "items (line_numbers sel) \<noteq> [] \<or> items (line_range sel) \<noteq> [] \<or> line_all sel
      \<or> items (delete_lines sel) \<noteq> [] \<or> items (delete_range sel) \<noteq> []"
    and err: "snd (str_replace re w p old_str new_str sel) = Inl e"
  shows "\<not> is_match_error e"
proof (cases "read_file w p")
  case (Inl e')
  with err show ?thesis
    by (auto simp: str_replace_def is_match_error_def dest: read_file_error)
next
  case (Inr raw)
  let ?c = "expandtabs raw"
  let ?ls = "split_nl ?c"
  show ?thesis
  proof (cases "validate_selectors sel (length ?ls)")
    case (Some e')
    with Inr err have "e' = e"
      by (simp add: str_replace_def Let_def)
    with Some show ?thesis
      by (auto dest: validate_selectors_error)
  next
    case None
    show ?thesis
    proof (cases "items (delete_lines sel) \<noteq> [] \<or> items (delete_range sel) \<noteq> []")
      case True
      with Inr None err have "e = ToolError (WriteFailure p) \<or> e = ValueError ''unpack''"
        by (auto simp: str_replace_def Let_def split: list.splits if_splits
            dest: delete_and_return_error)
      then show ?thesis
        by (auto simp: is_match_error_def)
    next
      case False
      with active have act: "line_all sel \<or> items (line_numbers sel) \<noteq> [] \<or> items (line_range sel) \<noteq> []"
        by auto
      let ?new = "case new_str of None \<Rightarrow> [] | Some n \<Rightarrow> expandtabs n"
      from Inr None False err
      have "(\<exists>e'. resolve re p ?c ?ls (expandtabs old_str) ?new sel = Inl e' \<and> e = e')
          \<or> e = ToolError (WriteFailure p) \<or> e = ValueError ''empty separator''"
        by (auto simp: str_replace_def Let_def split: sum.splits if_splits dest: write_file_error)
      then show ?thesis
      proof (elim disjE exE conjE)
        fix e'
        assume "resolve re p ?c ?ls (expandtabs old_str) ?new sel = Inl e'" and "e = e'"
        with resolve_error [OF act] have "e = IndexError \<or> e = ReError \<or> e = ValueError ''unpack''"
          by blast
        then show ?thesis by (auto simp: is_match_error_def)
      qed (simp_all add: is_match_error_def)
    qed
  qed
qed


lemma replace_on_lines_fixed:
  assumes "\<forall>l\<in>set ls. f l = l" and "\<forall>i\<in>set is. 0 \<le> i \<and> i < int (length ls)"
  shows "replace_on_lines (\<lambda>l. Inr (f l)) is ls = Inr ls"
  using assms(2)
proof (induction "is")
  case Nil
  show ?case by simp
next
  case (Cons i "is")
  then have "nat i < length ls" and "0 \<le> i" and "i < int (length ls)"
    by auto
  moreover from this assms(1) have "f (ls ! nat i) = ls ! nat i"
    by simp
  ultimately show ?case
    using Cons by (simp add: Let_def)
qed

lemma str_replace_absent_succeeds:
  assumes read: "read_file w p = Inr raw"
    and c: "c = expandtabs raw" and ls: "ls = split_nl c"
    and bounds: "\<forall>i \<in> set (items (line_numbers sel)) \<union> set (items (line_range sel))
                   \<union> set (items (delete_lines sel)) \<union> set (items (delete_range sel)).
                  1 \<le> i \<and> i \<le> int (length ls)"
    and lr: "items (line_range sel) = [] \<or> (\<exists>s t. items (line_range sel) = [s, t] \<and> s \<le> t)"
    and dr: "items (delete_range sel) = [] \<or> (\<exists>s t. items (delete_range sel) = [s, t] \<and> s \<le> t)"
    and active: "items (line_numbers sel) \<noteq> [] \<or> items (line_range sel) \<noteq> [] \<or> line_all sel
      \<or> items (delete_lines sel) \<noteq> [] \<or> items (delete_range sel) \<noteq> []"
    and lit: "\<not> regex sel"
    and absent: "count_str c (expandtabs old_str) = 0"
    and wr: "\<not> write_denied w p"
  shows "\<exists>new_content n.
           str_replace re w p old_str new_str sel
             = (history_append (w\<lparr>files := (files w)(p \<mapsto> File new_content)\<rparr>) p c,
                Inr (edited n p c new_content))
         \<and> (items (delete_lines sel) = [] \<and> items (delete_range sel) = [] \<and> \<not> line_all sel
              \<longrightarrow> new_content = c)
         \<and> (items (delete_lines sel) \<noteq> []
              \<longrightarrow> new_content = join_nl (without_lines (items (delete_lines sel)) ls))
         \<and> (\<forall>s t. items (delete_lines sel) = [] \<and> items (delete_range sel) = [s, t]
              \<longrightarrow> new_content = join_nl (without_range s t ls))"
proof -
  let ?old = "expandtabs old_str"
  let ?new = "case new_str of None \<Rightarrow> [] | Some n \<Rightarrow> expandtabs n"
  let ?f = "\<lambda>l. replace_str l ?old ?new"
  have v: "validate_selectors sel (length (split_nl (expandtabs raw))) = None"
    unfolding c [symmetric] ls [symmetric] using bounds lr dr by (rule validate_selectors_passes)
  have nd: "files w p \<noteq> Some Dir"
    using read by (rule read_file_is_file)
  have old: "?old \<noteq> []"
    using absent by auto
  have fixed: "\<forall>l\<in>set ls. ?f l = l"
    using absent unfolding ls by (auto intro: absent_from_lines)
  have sub: "substitute re False ?old ?new = (\<lambda>l. Inr (?f l))"
    by (simp add: substitute_def fun_eq_iff)
  show ?thesis
  proof (cases "items (delete_lines sel) \<noteq> []")
    case True
    let ?d = "join_nl (without_lines (items (delete_lines sel)) ls)"
    have "str_replace re w p old_str new_str sel
        = (history_append (w\<lparr>files := (files w)(p \<mapsto> File ?d)\<rparr>) p c,
           Inr (edited LinesDeleted p c ?d))"
      using True read v nd wr
      by (simp add: str_replace_def Let_def delete_and_return_def write_file_def c ls)
    with True show ?thesis
      by blast
  next
    case dl: False
    show ?thesis
    proof (cases "items (delete_range sel) \<noteq> []")
      case True
      with dr obtain s t where st: "items (delete_range sel) = [s, t]"
        by auto
      let ?d = "join_nl (without_range s t ls)"
      have "str_replace re w p old_str new_str sel
          = (history_append (w\<lparr>files := (files w)(p \<mapsto> File ?d)\<rparr>) p c,
             Inr (edited RangeDeleted p c ?d))"
        using st read v nd wr dl
        by (simp add: str_replace_def Let_def delete_and_return_def write_file_def c ls)
      with st dl show ?thesis
        by auto
    next
      case drf: False
      have "\<exists>new_content. resolve re p c ls ?old ?new sel = Inr new_content
              \<and> (\<not> line_all sel \<longrightarrow> new_content = c)"
      proof (cases "line_all sel")
        case True
        with lit show ?thesis by (simp add: resolve_def)
      next
        case la: False
        show ?thesis
        proof (cases "items (line_numbers sel) \<noteq> []")
          case True
          from bounds have "\<forall>i\<in>set (items (line_numbers sel)). 1 \<le> i \<and> i \<le> int (length ls)"
            by blast
          then have "\<forall>i\<in>set (map (\<lambda>i. i - 1) (items (line_numbers sel))).
              0 \<le> i \<and> i < int (length ls)"
            by fastforce
          from replace_on_lines_fixed [OF fixed this] la True lit show ?thesis
            by (simp add: resolve_def sub ls)
        next
          case False
          with active dl drf la obtain s t where st: "items (line_range sel) = [s, t]" "s \<le> t"
            using lr by auto
          with bounds have "1 \<le> s" and "t \<le> int (length ls)"
            by simp_all
          then have "\<forall>i\<in>set [s - 1 .. t - 1]. 0 \<le> i \<and> i < int (length ls)"
            by auto
          from replace_on_lines_fixed [OF fixed this] la False lit st show ?thesis
            by (simp add: resolve_def sub ls)
        qed
      qed
      then obtain new_content where
        res: "resolve re p c ls ?old ?new sel = Inr new_content"
        and same: "\<not> line_all sel \<longrightarrow> new_content = c"
        by blast
      have "str_replace re w p old_str new_str sel
          = (history_append (w\<lparr>files := (files w)(p \<mapsto> File new_content)\<rparr>) p c,
             Inr (edited Edited p c new_content))"
        using read v nd wr dl drf res old
        by (simp add: str_replace_def Let_def write_file_def c [symmetric] ls [symmetric])
      with same dl drf show ?thesis
        by auto
    qed
  qed
qed


text \<open>
  Claim C10, as stated: whenever a selector other than the default is supplied and in
  bounds (\<^verbatim>\<open>line_numbers\<close>, \<^verbatim>\<open>line_range\<close>, \<^verbatim>\<open>line_all\<close>, \<^verbatim>\<open>delete_lines\<close> or
  \<^verbatim>\<open>delete_range\<close>), \<^verbatim>\<open>str_replace\<close> never fails for a missing or repeated \<^verbatim>\<open>old_str\<close>;
  when \<^verbatim>\<open>old_str\<close> occurs nowhere the call succeeds, writes the file and records a
  history entry, and the text is left as it was. The last part does not hold for the
  delete selectors, which ignore \<^verbatim>\<open>old_str\<close> and remove the lines: on the lines \<^verbatim>\<open>a\<close>,
  \<^verbatim>\<open>b\<close> with \<^verbatim>\<open>delete_lines=[1]\<close> and an \<^verbatim>\<open>old_str\<close> that occurs nowhere, the file
  becomes \<^verbatim>\<open>b\<close>.
\<close>

theorem delete_lines_changes_text_without_match:
  "count_str ''a\<newline>b'' ''zzz'' = 0
   \<and> str_replace dot_engine (single_file ''/f'' ''a\<newline>b'') ''/f'' ''zzz'' (Some ''y'')
        (no_selectors\<lparr>delete_lines := Some [1]\<rparr>)
     = (\<lparr>files = [''/f'' \<mapsto> File ''b''], write_denied = (\<lambda>_. False),
         file_history = (\<lambda>_. [])(''/f'' := [''a\<newline>b''])\<rparr>,
        Inr (edited LinesDeleted ''/f'' ''a\<newline>b'' ''b''))"
  by (simp add: eval_defs)

text \<open>
  Claim C10, amended. Whenever \<^verbatim>\<open>line_numbers\<close>, \<^verbatim>\<open>line_range\<close>, \<^verbatim>\<open>line_all\<close>,
  \<^verbatim>\<open>delete_lines\<close> or \<^verbatim>\<open>delete_range\<close> is supplied, \<^verbatim>\<open>str_replace\<close> never fails with the
  error for a missing or for a repeated \<^verbatim>\<open>old_str\<close>. If moreover the file can be read,
  the supplied numbers are in bounds, \<^verbatim>\<open>regex\<close> is off, the tab-expanded \<^verbatim>\<open>old_str\<close> occurs
  nowhere in the tab-expanded content and the write is allowed, then the call succeeds,
  the file is written and the old content is appended to the history. Under
  \<^verbatim>\<open>line_numbers\<close> or \<^verbatim>\<open>line_range\<close> (with \<^verbatim>\<open>line_all\<close> off) the text written is the
  old text; under \<^verbatim>\<open>delete_lines\<close> or \<^verbatim>\<open>delete_range\<close> it is the old text without the
  selected lines. What is written under \<^verbatim>\<open>line_all\<close> is not part of this statement.
\<close>

theorem selector_scoped_replace_needs_no_match:
  assumes active: "items (line_numbers sel) \<noteq> [] \<or> items (line_range sel) \<noteq> [] \<or> line_all sel
      \<or> items (delete_lines sel) \<noteq> [] \<or> items (delete_range sel) \<noteq> []"
  shows "(\<forall>e. snd (str_replace re w p old_str new_str sel) = Inl e \<longrightarrow> \<not> is_match_error e)
       \<and> (let c = expandtabs raw; ls = split_nl c in
            read_file w p = Inr raw
            \<and> (\<forall>i \<in> set (items (line_numbers sel)) \<union> set (items (line_range sel))
                   \<union> set (items (delete_lines sel)) \<union> set (items (delete_range sel)).
                  1 \<le> i \<and> i \<le> int (length ls))
            \<and> (items (line_range sel) = [] \<or> (\<exists>s t. items (line_range sel) = [s, t] \<and> s \<le> t))
            \<and> (items (delete_range sel) = [] \<or> (\<exists>s t. items (delete_range sel) = [s, t] \<and> s \<le> t))
            \<and> \<not> regex sel \<and> count_str c (expandtabs old_str) = 0 \<and> \<not> write_denied w p
            \<longrightarrow>
            (\<exists>new_content n.
               str_replace re w p old_str new_str sel
                 = (history_append (w\<lparr>files := (files w)(p \<mapsto> File new_content)\<rparr>) p c,
                    Inr (edited n p c new_content))
             \<and> (items (delete_lines sel) = [] \<and> items (delete_range sel) = [] \<and> \<not> line_all sel
                  \<longrightarrow> new_content = c)
             \<and> (items (delete_lines sel) \<noteq> []
                  \<longrightarrow> new_content = join_nl (without_lines (items (delete_lines sel)) ls))
             \<and> (\<forall>s t. items (delete_lines sel) = [] \<and> items (delete_range sel) = [s, t]
                  \<longrightarrow> new_content = join_nl (without_range s t ls))))"
  unfolding Let_def
proof (intro conjI allI impI)
  fix e
  assume "snd (str_replace re w p old_str new_str sel) = Inl e"
  with active show "\<not> is_match_error e"
    by (rule str_replace_no_match_error)
next
  assume h: "read_file w p = Inr raw
      \<and> (\<forall>i \<in> set (items (line_numbers sel)) \<union> set (items (line_range sel))
             \<union> set (items (delete_lines sel)) \<union> set (items (delete_range sel)).
            1 \<le> i \<and> i \<le> int (length (split_nl (expandtabs raw))))
      \<and> (items (line_range sel) = [] \<or> (\<exists>s t. items (line_range sel) = [s, t] \<and> s \<le> t))
      \<and> (items (delete_range sel) = [] \<or> (\<exists>s t. items (delete_range sel) = [s, t] \<and> s \<le> t))
      \<and> \<not> regex sel \<and> count_str (expandtabs raw) (expandtabs old_str) = 0 \<and> \<not> write_denied w p"
  show "\<exists>new_content n.
               str_replace re w p old_str new_str sel
                 = (history_append (w\<lparr>files := (files w)(p \<mapsto> File new_content)\<rparr>) p
                      (expandtabs raw),
                    Inr (edited n p (expandtabs raw) new_content))
             \<and> (items (delete_lines sel) = [] \<and> items (delete_range sel) = [] \<and> \<not> line_all sel
                  \<longrightarrow> new_content = expandtabs raw)
             \<and> (items (delete_lines sel) \<noteq> []
                  \<longrightarrow> new_content = join_nl (without_lines (items (delete_lines sel))
                                             (split_nl (expandtabs raw))))
             \<and> (\<forall>s t. items (delete_lines sel) = [] \<and> items (delete_range sel) = [s, t]
                  \<longrightarrow> new_content = join_nl (without_range s t (split_nl (expandtabs raw))))"
    by (rule str_replace_absent_succeeds [OF _ refl refl _ _ _ active]) (use h in blast)+
qed

theorem selector_scoped_replace_needs_no_match_witness:
  "read_file (single_file ''/f'' ''a\<newline>b'') ''/f'' = Inr ''a\<newline>b''
   \<and> count_str (expandtabs ''a\<newline>b'') (expandtabs ''zzz'') = 0
   \<and> str_replace dot_engine (single_file ''/f'' ''a\<newline>b'') ''/f'' ''zzz'' (Some ''y'')
        (no_selectors\<lparr>line_range := Some [1, 2]\<rparr>)
     = (\<lparr>files = [''/f'' \<mapsto> File ''a\<newline>b''], write_denied = (\<lambda>_. False),
         file_history = (\<lambda>_. [])(''/f'' := [''a\<newline>b''])\<rparr>,
        Inr (edited Edited ''/f'' ''a\<newline>b'' ''a\<newline>b''))"
proof -
  let ?w = "single_file ''/f'' ''a\<newline>b''"
  let ?s = "no_selectors\<lparr>line_range := Some [1, 2]\<rparr>"
  have act: "items (line_numbers ?s) \<noteq> [] \<or> items (line_range ?s) \<noteq> [] \<or> line_all ?s
      \<or> items (delete_lines ?s) \<noteq> [] \<or> items (delete_range ?s) \<noteq> []"
    by (simp add: items_def)
  have r: "read_file ?w ''/f'' = Inr ''a\<newline>b''"
    by (simp add: read_file_def single_file_def)
  have absent: "count_str (expandtabs ''a\<newline>b'') (expandtabs ''zzz'') = 0"
    by (simp add: expandtabs_def)
  have h: "read_file ?w ''/f'' = Inr ''a\<newline>b''
      \<and> (\<forall>i \<in> set (items (line_numbers ?s)) \<union> set (items (line_range ?s))
             \<union> set (items (delete_lines ?s)) \<union> set (items (delete_range ?s)).
            1 \<le> i \<and> i \<le> int (length (split_nl (expandtabs ''a\<newline>b''))))
      \<and> (items (line_range ?s) = [] \<or> (\<exists>s t. items (line_range ?s) = [s, t] \<and> s \<le> t))
      \<and> (items (delete_range ?s) = [] \<or> (\<exists>s t. items (delete_range ?s) = [s, t] \<and> s \<le> t))
      \<and> \<not> regex ?s \<and> count_str (expandtabs ''a\<newline>b'') (expandtabs ''zzz'') = 0
      \<and> \<not> write_denied ?w ''/f''"
    using r absent by (simp add: items_def no_selectors_def single_file_def expandtabs_def)
  note t = selector_scoped_replace_needs_no_match [OF act, of dot_engine ?w "''/f''" "''zzz''"
      "Some ''y''" "''a\<newline>b''", unfolded Let_def, THEN conjunct2, rule_format, OF h]
  have e: "str_replace dot_engine ?w ''/f'' ''zzz'' (Some ''y'') ?s
     = (\<lparr>files = [''/f'' \<mapsto> File ''a\<newline>b''], write_denied = (\<lambda>_. False),
         file_history = (\<lambda>_. [])(''/f'' := [''a\<newline>b''])\<rparr>,
        Inr (edited Edited ''/f'' ''a\<newline>b'' ''a\<newline>b''))"
    by (simp add: eval_defs upto.simps)
  from t have "\<exists>new_content n. snd (str_replace dot_engine ?w ''/f'' ''zzz'' (Some ''y'') ?s)
      = Inr (edited n ''/f'' (expandtabs ''a\<newline>b'') new_content)"
    by fastforce
  with e r absent show ?thesis
    by simp
qed

subsection \<open>What a command leaves behind\<close>

text \<open>
  The state after \<^verbatim>\<open>str_replace\<close>, \<^verbatim>\<open>insert\<close> and \<^verbatim>\<open>undo_edit\<close>, by outcome, and after a
  call through \<^verbatim>\<open>__call__\<close>.
\<close>

lemma str_replace_outcome:
  assumes "str_replace re w p old_str new_str sel = (w', res)"
  shows "(\<forall>r. res = Inr r \<longrightarrow>
            (\<exists>raw new_content. read_file w p = Inr raw \<and> \<not> write_denied w p
               \<and> files w' = (files w)(p \<mapsto> File new_content)
               \<and> file_history w' = (file_history w)(p := file_history w p @ [expandtabs raw])
               \<and> write_denied w' = write_denied w))
       \<and> (\<forall>e. res = Inl e \<and> e \<noteq> ValueError ''empty separator'' \<longrightarrow> w' = w)"
proof (cases "read_file w p")
  case (Inl e)
  with assms show ?thesis
    by (auto simp: str_replace_def)
next
  case (Inr raw)
  show ?thesis
  proof (cases "validate_selectors sel (length (split_nl (expandtabs raw)))")
    case (Some e)
    with Inr assms show ?thesis
      by (auto simp: str_replace_def Let_def)
  next
    case None
    with Inr assms show ?thesis
      by (auto simp: str_replace_def Let_def delete_and_return_def history_append_def
          split: if_splits sum.splits list.splits dest!: write_file_Inr)
  qed
qed

lemma insert_cmd_outcome:
  assumes "insert_cmd w p insert_line new_str = (w', res)"
  shows "(\<forall>r. res = Inr r \<longrightarrow>
            (\<exists>raw new_content. read_file w p = Inr raw \<and> \<not> write_denied w p
               \<and> files w' = (files w)(p \<mapsto> File new_content)
               \<and> file_history w' = (file_history w)(p := file_history w p @ [expandtabs raw])
               \<and> write_denied w' = write_denied w))
       \<and> (\<forall>e. res = Inl e \<longrightarrow> w' = w)"
  using assms
  by (auto simp: insert_cmd_def Let_def history_append_def
      split: if_splits sum.splits dest!: write_file_Inr)

lemma undo_edit_outcome:
  assumes "undo_edit w p = (w', Inl e)"
  shows "files w' = files w \<and> (\<forall>q. prefix (file_history w' q) (file_history w q))"
  using assms
  by (auto simp: undo_edit_def Let_def prefixeq_butlast split: if_splits sum.splits)

lemma call_outcome:
  assumes run: "call re w cmd p file_text view_range old_str new_str insert_line sel = (w', res)"
  shows "(\<forall>r. res = Inr r \<longrightarrow>
            (cmd = Create \<longrightarrow>
               (\<exists>t. file_text = Some t \<and> files w p = None
                  \<and> files w' = (files w)(p \<mapsto> File t)
                  \<and> file_history w' = (file_history w)(p := file_history w p @ [t])))
          \<and> (cmd = Str_replace \<or> cmd = Insert \<longrightarrow>
               (\<exists>raw. read_file w p = Inr raw
                  \<and> file_history w' = (file_history w)(p := file_history w p @ [expandtabs raw])))
          \<and> (cmd = View \<longrightarrow> w' = w))
       \<and> (\<forall>e. res = Inl e \<and> e \<noteq> ValueError ''empty separator'' \<longrightarrow>
            files w' = files w
          \<and> (\<forall>q. prefix (file_history w' q) (file_history w q))
          \<and> (cmd \<noteq> Undo_edit \<longrightarrow> w' = w))"
proof (cases "validate_path w cmd p")
  case (Some e)
  with run show ?thesis
    by (auto simp: call_def)
next
  case None
  show ?thesis
  proof (cases cmd)
    case View
    with None run show ?thesis
      by (auto simp: call_def)
  next
    case Create
    with None have "files w p = None"
      by (auto simp: validate_path_def split: if_splits)
    with Create None run show ?thesis
      by (auto simp: call_def history_append_def split: option.splits sum.splits
          dest!: write_file_Inr)
  next
    case Str_replace
    show ?thesis
    proof (cases "\<exists>old. old_str = Some old \<and> new_str \<noteq> Some old")
      case True
      then obtain old where "old_str = Some old" "new_str \<noteq> Some old"
        by blast
      with Str_replace None run have "str_replace re w p old new_str sel = (w', res)"
        by (simp add: call_def)
      from str_replace_outcome [OF this] Str_replace show ?thesis
        by auto
    next
      case False
      with Str_replace None run show ?thesis
        by (auto simp: call_def split: option.splits if_splits)
    qed
  next
    case Insert
    show ?thesis
    proof (cases "\<exists>l new. insert_line = Some l \<and> new_str = Some new")
      case True
      then obtain l new where "insert_line = Some l" "new_str = Some new"
        by blast
      with Insert None run have "insert_cmd w p l new = (w', res)"
        by (simp add: call_def)
      from insert_cmd_outcome [OF this] Insert show ?thesis
        by auto
    next
      case False
      with Insert None run show ?thesis
        by (auto simp: call_def split: option.splits)
    qed
  next
    case Undo_edit
    with None run have u: "undo_edit w p = (w', res)"
      by (simp add: call_def)
    show ?thesis
    proof (cases res)
      case (Inl e)
      with u undo_edit_outcome [of w p w' e] Undo_edit show ?thesis
        by auto
    next
      case (Inr r)
      with Undo_edit show ?thesis by simp
    qed
  next
    case (Other name)
    with None run show ?thesis
      by (auto simp: call_def)
  qed
qed

text \<open>Two runs on a file of two lines: a replacement, and a missing \<^verbatim>\<open>old_str\<close>.\<close>

lemma example_replace_run:
  "call dot_engine (single_file ''/f'' ''a\<newline>b'') Str_replace ''/f'' None None (Some ''b'') (Some ''c'')
      None no_selectors
   = (\<lparr>files = [''/f'' \<mapsto> File ''a\<newline>c''], write_denied = (\<lambda>_. False),
       file_history = (\<lambda>_. [])(''/f'' := [''a\<newline>b''])\<rparr>,
      Inr (edited Edited ''/f'' ''a\<newline>b'' ''a\<newline>c''))"
  by (simp add: call_def validate_path_def is_absolute_def eval_defs)

lemma example_missing_run:
  "call dot_engine (single_file ''/f'' ''a\<newline>b'') Str_replace ''/f'' None None (Some ''zzz'')
      (Some ''c'') None no_selectors
   = (single_file ''/f'' ''a\<newline>b'', Inl (ToolError (NotFound ''zzz'' ''/f'')))"
  by (simp add: call_def validate_path_def is_absolute_def eval_defs)

text \<open>
  An empty \<^verbatim>\<open>old_str\<close> with \<^verbatim>\<open>line_all=True\<close>: the file and the history are written, and
  then cutting the snippet raises \<^verbatim>\<open>ValueError\<close>. The call fails after it has changed
  the state.
\<close>

lemma empty_old_str_fails_after_writing:
  "str_replace re (single_file ''/f'' ''ab'') ''/f'' '''' (Some ''x'')
      (no_selectors\<lparr>line_all := True\<rparr>)
   = (\<lparr>files = [''/f'' \<mapsto> File ''xaxbx''], write_denied = (\<lambda>_. False),
       file_history = (\<lambda>_. [])(''/f'' := [''ab''])\<rparr>,
      Inl (ValueError ''empty separator''))"
  by (simp add: eval_defs)

text \<open>
  Claim C5, as stated: every successful \<^verbatim>\<open>create\<close>, \<^verbatim>\<open>str_replace\<close> or \<^verbatim>\<open>insert\<close> pushes
  exactly one history entry for the path, the entry is the content of the file before the
  command, and a command that fails records nothing and leaves the file alone.
  \<^verbatim>\<open>create\<close> runs only on a path that holds nothing, and the entry it pushes is
  \<^verbatim>\<open>file_text\<close>, the content after the command.
\<close>

theorem create_records_the_new_text:
  "files no_files ''/f'' = None
   \<and> call dot_engine no_files Create ''/f'' (Some ''x'') None None None None no_selectors
     = (\<lparr>files = [''/f'' \<mapsto> File ''x''], write_denied = (\<lambda>_. False),
         file_history = (\<lambda>_. [])(''/f'' := [''x''])\<rparr>,
        Inr \<lparr>r_output = Created, r_path = ''/f'', r_prev_exist = False,
             r_old_content = None, r_new_content = Some ''x''\<rparr>)"
  by (simp add: call_def validate_path_def is_absolute_def no_files_def write_file_def
      history_append_def)

text \<open>
  Claim C5, amended. A successful \<^verbatim>\<open>create\<close>, \<^verbatim>\<open>str_replace\<close> or \<^verbatim>\<open>insert\<close> appends exactly
  one entry to the history of its path and none to any other. For \<^verbatim>\<open>str_replace\<close> and
  \<^verbatim>\<open>insert\<close> the entry is the text read from the file before the command, tab-expanded;
  for \<^verbatim>\<open>create\<close>, whose path held nothing, it is the text just written. A successful
  \<^verbatim>\<open>view\<close> changes nothing. When a command fails, with any error but the \<^verbatim>\<open>ValueError\<close>
  for an empty separator, no file has changed and no history has grown; the state is
  the one before the call, except that a failed \<^verbatim>\<open>undo_edit\<close> may have popped its entry.
  (The \<^verbatim>\<open>ValueError\<close> comes from \<^verbatim>\<open>file_content.split(old_str)\<close> with an empty
  \<^verbatim>\<open>old_str\<close>, after the write; what the state is then is not part of this statement.)
\<close>

theorem history_entries_of_commands:
  assumes run: "call re w cmd p file_text view_range old_str new_str insert_line sel = (w', res)"
  shows "(\<forall>r. res = Inr r \<longrightarrow>
            (cmd = Create \<longrightarrow>
               (\<exists>t. file_text = Some t \<and> files w p = None
                  \<and> files w' = (files w)(p \<mapsto> File t)
                  \<and> file_history w' = (file_history w)(p := file_history w p @ [t])))
          \<and> (cmd = Str_replace \<or> cmd = Insert \<longrightarrow>
               (\<exists>raw. read_file w p = Inr raw
                  \<and> file_history w' = (file_history w)(p := file_history w p @ [expandtabs raw])))
          \<and> (cmd = View \<longrightarrow> w' = w))
       \<and> (\<forall>e. res = Inl e \<and> e \<noteq> ValueError ''empty separator'' \<longrightarrow>
            files w' = files w
          \<and> (\<forall>q. prefix (file_history w' q) (file_history w q))
          \<and> (cmd \<noteq> Undo_edit \<longrightarrow> w' = w))"
  using run by (rule call_outcome)

theorem history_entries_of_commands_witness:
  "call dot_engine (single_file ''/f'' ''a\<newline>b'') Str_replace ''/f'' None None (Some ''b'') (Some ''c'')
      None no_selectors
   = (\<lparr>files = [''/f'' \<mapsto> File ''a\<newline>c''], write_denied = (\<lambda>_. False),
       file_history = (\<lambda>_. [])(''/f'' := [''a\<newline>b''])\<rparr>,
      Inr (edited Edited ''/f'' ''a\<newline>b'' ''a\<newline>c''))
   \<and> (\<exists>raw. read_file (single_file ''/f'' ''a\<newline>b'') ''/f'' = Inr raw
          \<and> (\<lambda>_. [])(''/f'' := [''a\<newline>b''])
             = (file_history (single_file ''/f'' ''a\<newline>b''))
                 (''/f'' := file_history (single_file ''/f'' ''a\<newline>b'') ''/f'' @ [expandtabs raw]))
   \<and> call dot_engine (single_file ''/f'' ''a\<newline>b'') Str_replace ''/f'' None None (Some ''zzz'')
        (Some ''c'') None no_selectors
     = (single_file ''/f'' ''a\<newline>b'', Inl (ToolError (NotFound ''zzz'' ''/f'')))"
proof -
  note a = history_entries_of_commands [OF example_replace_run, THEN conjunct1, rule_format,
      OF refl, THEN conjunct2, THEN conjunct1, rule_format, OF disjI1, OF refl]
  note b = history_entries_of_commands [OF example_missing_run, THEN conjunct2, rule_format,
      of "ToolError (NotFound ''zzz'' ''/f'')"]
  from a have "\<exists>raw. read_file (single_file ''/f'' ''a\<newline>b'') ''/f'' = Inr raw
          \<and> (\<lambda>_. [])(''/f'' := [''a\<newline>b''])
             = (file_history (single_file ''/f'' ''a\<newline>b''))
                 (''/f'' := file_history (single_file ''/f'' ''a\<newline>b'') ''/f'' @ [expandtabs raw])"
    by simp
  with b example_replace_run example_missing_run show ?thesis
    by simp
qed


subsection \<open>Undo after an edit\<close>

lemma universal_newlines_id: "CR \<notin> set s \<Longrightarrow> universal_newlines s = s"
  by (induction s) auto

lemma expandtabs_from_id: "TAB \<notin> set s \<Longrightarrow> expandtabs_from j s = s"
  by (induction s arbitrary: j) auto

lemma read_file_plain:
  assumes "files w p = Some (File t)" and "TAB \<notin> set t" and "CR \<notin> set t"
    and "read_file w p = Inr raw"
  shows "expandtabs raw = t"
  using assms by (simp add: read_file_def universal_newlines_id expandtabs_def expandtabs_from_id)

lemma call_succeeds_path_ok:
  assumes "call re w cmd p file_text view_range old_str new_str insert_line sel = (w', Inr r)"
  shows "validate_path w cmd p = None"
  using assms by (cases "validate_path w cmd p") (auto simp: call_def)

lemma validate_path_absolute: "validate_path w cmd p = None \<Longrightarrow> is_absolute p"
  by (auto simp: validate_path_def split: if_splits)

lemma undo_edit_after_write:
  assumes "files w' = (files w)(p \<mapsto> File nc)"
    and "file_history w' = (file_history w)(p := file_history w p @ [x])"
    and "write_denied w' = write_denied w" and "\<not> write_denied w p" and "is_absolute p"
  shows "\<exists>w'' r'. call re w' Undo_edit p a b c d e sel = (w'', Inr r')
           \<and> files w'' = (files w)(p \<mapsto> File x) \<and> file_history w'' = file_history w"
  using assms
  by (simp add: call_def validate_path_def undo_edit_def read_file_def write_file_def Let_def)

text \<open>
  Claim C6, as stated: after every successful \<^verbatim>\<open>create\<close>, \<^verbatim>\<open>str_replace\<close> or \<^verbatim>\<open>insert\<close>
  on a path, \<^verbatim>\<open>undo_edit\<close> on that path restores what the path held before the call.
  \<^verbatim>\<open>create\<close> pushes the text it has just written, so undoing it writes that text again:
  the path, which held nothing before, still holds the file.
\<close>

theorem undo_after_create_leaves_the_file:
  "files no_files ''/f'' = None
   \<and> files (fst (call dot_engine
        (fst (call dot_engine no_files Create ''/f'' (Some ''x'') None None None None no_selectors))
        Undo_edit ''/f'' None None None None None no_selectors)) ''/f'' = Some (File ''x'')
   \<and> snd (call dot_engine
        (fst (call dot_engine no_files Create ''/f'' (Some ''x'') None None None None no_selectors))
        Undo_edit ''/f'' None None None None None no_selectors)
     = Inr (edited Undone ''/f'' ''x'' ''x'')"
  by (simp add: call_def validate_path_def is_absolute_def no_files_def write_file_def
      history_append_def undo_edit_def read_file_def expandtabs_def edited_def Let_def)

text \<open>
  Claim C6, amended. After a successful \<^verbatim>\<open>str_replace\<close> or \<^verbatim>\<open>insert\<close> on a path,
  \<^verbatim>\<open>undo_edit\<close> on that path succeeds and leaves the file holding the text that was read
  before the edit, tab-expanded, and the history as it was before the edit; when the
  file held no tab and no carriage return, this is the file as it was, character for
  character. After a successful \<^verbatim>\<open>create\<close>, \<^verbatim>\<open>undo_edit\<close> succeeds, the history is as
  before, and the file holds the created text: the file is not removed.
\<close>

theorem undo_edit_after_mutation:
  assumes run: "call re w cmd p file_text view_range old_str new_str insert_line sel = (w', Inr r)"
  shows "(cmd = Str_replace \<or> cmd = Insert \<longrightarrow>
            (\<exists>raw w'' r'. read_file w p = Inr raw
               \<and> call re2 w' Undo_edit p file_text2 view_range2 old_str2 new_str2 insert_line2 sel2
                   = (w'', Inr r')
               \<and> files w'' = (files w)(p \<mapsto> File (expandtabs raw))
               \<and> file_history w'' = file_history w
               \<and> (\<forall>t. files w p = Some (File t) \<and> TAB \<notin> set t \<and> CR \<notin> set t
                      \<longrightarrow> files w'' = files w)))
       \<and> (cmd = Create \<longrightarrow>
            (\<exists>t w'' r'. file_text = Some t \<and> files w p = None
               \<and> call re2 w' Undo_edit p file_text2 view_range2 old_str2 new_str2 insert_line2 sel2
                   = (w'', Inr r')
               \<and> files w'' = (files w)(p \<mapsto> File t)
               \<and> file_history w'' = file_history w))"
proof -
  have abs: "is_absolute p"
    using call_succeeds_path_ok [OF run] by (rule validate_path_absolute)
  note ok = call_outcome [OF run, THEN conjunct1, rule_format, OF refl]
  have edit: "\<exists>raw w'' r'. read_file w p = Inr raw
               \<and> call re2 w' Undo_edit p file_text2 view_range2 old_str2 new_str2 insert_line2 sel2
                   = (w'', Inr r')
               \<and> files w'' = (files w)(p \<mapsto> File (expandtabs raw))
               \<and> file_history w'' = file_history w
               \<and> (\<forall>t. files w p = Some (File t) \<and> TAB \<notin> set t \<and> CR \<notin> set t
                      \<longrightarrow> files w'' = files w)"
    if c: "cmd = Str_replace \<or> cmd = Insert"
  proof -
    from ok [THEN conjunct2, THEN conjunct1, rule_format, OF c]
    obtain raw where raw: "read_file w p = Inr raw"
      and h: "file_history w' = (file_history w)(p := file_history w p @ [expandtabs raw])"
      by blast
    have "\<exists>nc. \<not> write_denied w p
        \<and> files w' = (files w)(p \<mapsto> File nc) \<and> write_denied w' = write_denied w"
      using c
    proof
      assume "cmd = Str_replace"
      with run call_succeeds_path_ok [OF run] obtain old where
        "str_replace re w p old new_str sel = (w', Inr r)"
        by (auto simp: call_def split: option.splits if_splits)
      from str_replace_outcome [OF this, THEN conjunct1, rule_format, OF refl]
      show ?thesis by blast
    next
      assume "cmd = Insert"
      with run call_succeeds_path_ok [OF run] obtain l new where
        "insert_cmd w p l new = (w', Inr r)"
        by (auto simp: call_def split: option.splits)
      from insert_cmd_outcome [OF this, THEN conjunct1, rule_format, OF refl]
      show ?thesis by blast
    qed
    then obtain nc where wr: "\<not> write_denied w p"
      and f: "files w' = (files w)(p \<mapsto> File nc)" and d: "write_denied w' = write_denied w"
      by blast
    from undo_edit_after_write [OF f h d wr abs]
    obtain w'' r' where u: "call re2 w' Undo_edit p file_text2 view_range2 old_str2 new_str2
          insert_line2 sel2 = (w'', Inr r')"
      and f'': "files w'' = (files w)(p \<mapsto> File (expandtabs raw))"
      and h'': "file_history w'' = file_history w"
      by blast
    have plain: "\<forall>t. files w p = Some (File t) \<and> TAB \<notin> set t \<and> CR \<notin> set t
        \<longrightarrow> files w'' = files w"
    proof (intro allI impI)
      fix t
      assume a: "files w p = Some (File t) \<and> TAB \<notin> set t \<and> CR \<notin> set t"
      with raw have "expandtabs raw = t"
        by (blast intro: read_file_plain)
      with f'' a show "files w'' = files w"
        by (simp add: fun_upd_idem)
    qed
    show ?thesis
      using raw u f'' h'' plain by (intro exI conjI)
  qed
  have create: "\<exists>t w'' r'. file_text = Some t \<and> files w p = None
               \<and> call re2 w' Undo_edit p file_text2 view_range2 old_str2 new_str2 insert_line2 sel2
                   = (w'', Inr r')
               \<and> files w'' = (files w)(p \<mapsto> File t)
               \<and> file_history w'' = file_history w"
    if c: "cmd = Create"
  proof -
    from ok [THEN conjunct1, rule_format, OF c]
    obtain t where t: "file_text = Some t" "files w p = None"
      and f: "files w' = (files w)(p \<mapsto> File t)"
      and h: "file_history w' = (file_history w)(p := file_history w p @ [t])"
      by blast
    from run c t call_succeeds_path_ok [OF run]
    have d: "write_denied w' = write_denied w" and wr: "\<not> write_denied w p"
      by (auto simp: call_def history_append_def split: sum.splits dest!: write_file_Inr)
    from undo_edit_after_write [OF f h d wr abs]
    obtain w'' r' where "call re2 w' Undo_edit p file_text2 view_range2 old_str2 new_str2
          insert_line2 sel2 = (w'', Inr r')"
      and "files w'' = (files w)(p \<mapsto> File t)"
      and "file_history w'' = file_history w"
      by blast
    with t show ?thesis
      by (intro exI conjI)
  qed
  from edit create show ?thesis
    by (intro conjI impI)
qed

theorem undo_edit_after_mutation_witness:
  "call dot_engine (single_file ''/f'' ''a\<newline>b'') Str_replace ''/f'' None None (Some ''b'') (Some ''c'')
      None no_selectors
   = (\<lparr>files = [''/f'' \<mapsto> File ''a\<newline>c''], write_denied = (\<lambda>_. False),
       file_history = (\<lambda>_. [])(''/f'' := [''a\<newline>b''])\<rparr>,
      Inr (edited Edited ''/f'' ''a\<newline>b'' ''a\<newline>c''))
   \<and> (\<exists>w'' r'. call dot_engine
          \<lparr>files = [''/f'' \<mapsto> File ''a\<newline>c''], write_denied = (\<lambda>_. False),
           file_history = (\<lambda>_. [])(''/f'' := [''a\<newline>b''])\<rparr>
          Undo_edit ''/f'' None None None None None no_selectors = (w'', Inr r')
        \<and> files w'' = files (single_file ''/f'' ''a\<newline>b'')
        \<and> file_history w'' = file_history (single_file ''/f'' ''a\<newline>b''))"
proof -
  have plain: "files (single_file ''/f'' ''a\<newline>b'') ''/f'' = Some (File ''a\<newline>b'')
      \<and> TAB \<notin> set ''a\<newline>b'' \<and> CR \<notin> set ''a\<newline>b''"
    by (simp add: single_file_def)
  note a = undo_edit_after_mutation [OF example_replace_run, THEN conjunct1, rule_format,
      OF disjI1, OF refl, of dot_engine None None None None None no_selectors]
  from a obtain raw w'' r' where
    "call dot_engine
          \<lparr>files = [''/f'' \<mapsto> File ''a\<newline>c''], write_denied = (\<lambda>_. False),
           file_history = (\<lambda>_. [])(''/f'' := [''a\<newline>b''])\<rparr>
          Undo_edit ''/f'' None None None None None no_selectors = (w'', Inr r')"
    and "file_history w'' = file_history (single_file ''/f'' ''a\<newline>b'')"
    and "\<forall>t. files (single_file ''/f'' ''a\<newline>b'') ''/f'' = Some (File t)
            \<and> TAB \<notin> set t \<and> CR \<notin> set t
          \<longrightarrow> files w'' = files (single_file ''/f'' ''a\<newline>b'')"
    by blast
  with plain have "\<exists>w'' r'. call dot_engine
          \<lparr>files = [''/f'' \<mapsto> File ''a\<newline>c''], write_denied = (\<lambda>_. False),
           file_history = (\<lambda>_. [])(''/f'' := [''a\<newline>b''])\<rparr>
          Undo_edit ''/f'' None None None None None no_selectors = (w'', Inr r')
        \<and> files w'' = files (single_file ''/f'' ''a\<newline>b'')
        \<and> file_history w'' = file_history (single_file ''/f'' ''a\<newline>b'')"
    by blast
  with example_replace_run show ?thesis
    by (rule conjI)
qed

end
